theory Spec2Isabelle
  imports Complex_Main "HOL-Library.FSet" "HOL-Library.Char_ord" "HOL-Library.List_Lexorder"
begin

section \<open>Python strings\<close>

text \<open>
  A Python \<open>str\<close> is modelled as a \<open>string\<close> whose characters are the code points below
  256. A finite floating-point number is modelled as a rational: rounding is outside the
  model. The builtin \<open>float(s)\<close> is not code of the repository; every function that calls
  it takes it as the parameter \<open>pf\<close>, where \<open>None\<close> stands for \<open>ValueError\<close>. The judge's
  scores are finite (\<open>pyfloat\<close>). The clarity rating passes what \<open>float\<close> returns through
  \<open>min\<close> and \<open>max\<close>, which do not treat the infinities and NaN as they treat numbers, so
  there \<open>float\<close> returns a \<open>float_value\<close> (\<open>pyfloat_full\<close>).
\<close>

type_synonym pyfloat = "string \<Rightarrow> rat option"

datatype float_value = Finite rat | PosInf | NegInf | NaN

type_synonym pyfloat_full = "string \<Rightarrow> float_value option"

fun flt :: "float_value \<Rightarrow> float_value \<Rightarrow> bool" where
  \<comment> \<open>\<open>a < b\<close> on floats: every comparison with NaN is false\<close>
  "flt NaN b = False"
| "flt a NaN = False"
| "flt PosInf b = False"
| "flt a NegInf = False"
| "flt NegInf b = True"
| "flt a PosInf = True"
| "flt (Finite a) (Finite b) = (a < b)"

fun fadd :: "float_value \<Rightarrow> float_value \<Rightarrow> float_value" where
  \<comment> \<open>\<open>a + b\<close> on floats\<close>
  "fadd NaN b = NaN"
| "fadd a NaN = NaN"
| "fadd PosInf NegInf = NaN"
| "fadd NegInf PosInf = NaN"
| "fadd PosInf b = PosInf"
| "fadd a PosInf = PosInf"
| "fadd NegInf b = NegInf"
| "fadd a NegInf = NegInf"
| "fadd (Finite a) (Finite b) = Finite (a + b)"

fun fdiv :: "float_value \<Rightarrow> nat \<Rightarrow> float_value" where
  \<comment> \<open>\<open>a / n\<close> for a float \<open>a\<close> and a positive \<open>int\<close> \<open>n\<close>\<close>
  "fdiv (Finite a) n = Finite (a / of_nat n)"
| "fdiv a n = a"

definition py_max :: "float_value \<Rightarrow> float_value \<Rightarrow> float_value" where
  \<comment> \<open>the builtin \<open>max(a, b)\<close>: \<open>b\<close> when \<open>b > a\<close>, else \<open>a\<close>\<close>
  "py_max a b = (if flt a b then b else a)"

definition py_min :: "float_value \<Rightarrow> float_value \<Rightarrow> float_value" where
  \<comment> \<open>the builtin \<open>min(a, b)\<close>: \<open>b\<close> when \<open>b < a\<close>, else \<open>a\<close>\<close>
  "py_min a b = (if flt b a then b else a)"

definition newline :: char where
  "newline = CHR 0x0A"

definition is_space :: "char \<Rightarrow> bool" where
  \<comment> \<open>\<open>str.isspace\<close> on the code points below 256\<close>
  "is_space c =
     (let n = (of_char c :: nat)
      in (9 \<le> n \<and> n \<le> 13) \<or> (28 \<le> n \<and> n \<le> 32) \<or> n = 133 \<or> n = 160)"

definition strip :: "string \<Rightarrow> string" where
  \<comment> \<open>\<open>s.strip()\<close>\<close>
  "strip s = rev (dropWhile is_space (rev (dropWhile is_space s)))"

definition lower_char :: "char \<Rightarrow> char" where
  "lower_char c =
     (let n = (of_char c :: nat)
      in if (65 \<le> n \<and> n \<le> 90) \<or> (192 \<le> n \<and> n \<le> 222 \<and> n \<noteq> 215)
         then char_of (n + 32) else c)"

definition lower :: "string \<Rightarrow> string" where
  \<comment> \<open>\<open>s.lower()\<close>\<close>
  "lower s = map lower_char s"

fun startswith :: "string \<Rightarrow> string \<Rightarrow> bool" where
  \<comment> \<open>\<open>s.startswith(p)\<close>, written \<open>startswith p s\<close>\<close>
  "startswith [] s = True"
| "startswith (p # ps) [] = False"
| "startswith (p # ps) (c # cs) = (p = c \<and> startswith ps cs)"

fun contains :: "string \<Rightarrow> string \<Rightarrow> bool" where
  \<comment> \<open>\<open>sub in s\<close>, written \<open>contains sub s\<close>\<close>
  "contains sub [] = (sub = [])"
| "contains sub (c # cs) = (startswith sub (c # cs) \<or> contains sub cs)"

fun find_at :: "string \<Rightarrow> string \<Rightarrow> nat \<Rightarrow> int" where
  \<comment> \<open>the lowest index of \<open>sub\<close> in a suffix whose first character has index \<open>i\<close>, or -1\<close>
  "find_at sub [] i = (if sub = [] then int i else - 1)"
| "find_at sub (c # cs) i =
     (if startswith sub (c # cs) then int i else find_at sub cs (Suc i))"

definition str_find :: "string \<Rightarrow> string \<Rightarrow> nat \<Rightarrow> int" where
  \<comment> \<open>\<open>s.find(sub, start)\<close> for \<open>start >= 0\<close>, written \<open>str_find s sub start\<close>\<close>
  "str_find s sub start = (if length s < start then - 1 else find_at sub (drop start s) start)"

definition slice :: "string \<Rightarrow> int \<Rightarrow> int \<Rightarrow> string" where
  \<comment> \<open>\<open>s[start:stop]\<close>: a negative index counts from the end, both are clipped to the string\<close>
  "slice s start stop =
     (let n = int (length s);
          a = (if start < 0 then max 0 (start + n) else min start n);
          b = (if stop < 0 then max 0 (stop + n) else min stop n)
      in drop (nat a) (take (nat b) s))"

fun split_on :: "char \<Rightarrow> string \<Rightarrow> string list" where
  \<comment> \<open>\<open>s.split(sep)\<close> for a one-character separator\<close>
  "split_on sep [] = [[]]"
| "split_on sep (c # cs) =
     (if c = sep then [] # split_on sep cs
      else (case split_on sep cs of [] \<Rightarrow> [[c]] | p # ps \<Rightarrow> (c # p) # ps))"

fun split_ws_from :: "string \<Rightarrow> string \<Rightarrow> string list" where
  \<comment> \<open>the words of a string, given the reversed prefix of the word being read\<close>
  "split_ws_from cur [] = (if cur = [] then [] else [rev cur])"
| "split_ws_from cur (c # cs) =
     (if is_space c
      then (if cur = [] then split_ws_from [] cs else rev cur # split_ws_from [] cs)
      else split_ws_from (c # cur) cs)"

definition split_ws :: "string \<Rightarrow> string list" where
  \<comment> \<open>\<open>s.split()\<close>: the maximal runs of non-whitespace\<close>
  "split_ws s = split_ws_from [] s"

fun count_from :: "string \<Rightarrow> nat \<Rightarrow> string \<Rightarrow> nat" where
  \<comment> \<open>non-overlapping occurrences, scanning left to right; \<open>skip\<close> characters of the
      last match are still to be passed\<close>
  "count_from sub skip [] = 0"
| "count_from sub skip (c # cs) =
     (if 0 < skip then count_from sub (skip - 1) cs
      else if startswith sub (c # cs) then Suc (count_from sub (length sub - 1) cs)
      else count_from sub 0 cs)"

definition str_count :: "string \<Rightarrow> string \<Rightarrow> nat" where
  \<comment> \<open>\<open>s.count(sub)\<close> for a non-empty \<open>sub\<close>, written \<open>str_count s sub\<close>\<close>
  "str_count s sub = count_from sub 0 s"

fun join :: "string \<Rightarrow> string list \<Rightarrow> string" where
  \<comment> \<open>\<open>sep.join(xs)\<close>\<close>
  "join sep [] = []"
| "join sep [x] = x"
| "join sep (x # y # ys) = x @ sep @ join sep (y # ys)"

fun truthy :: "string option \<Rightarrow> bool" where
  \<comment> \<open>the truth value of an \<open>Optional[str]\<close>: neither \<open>None\<close> nor empty\<close>
  "truthy None = False"
| "truthy (Some s) = (s \<noteq> [])"

section \<open>Data model (models.py)\<close>

datatype CodeType = MODULE | CLASS | FUNCTION | METHOD

datatype TestType = UNIT | INTEGRATION | FUNCTIONAL | MUTATION

text \<open>
  Fields that \<open>CodeUnit\<close> and \<open>TestCase\<close> share in the source carry the prefix \<open>unit_\<close> or
  \<open>test_\<close>. A \<open>Path\<close> is its string; the \<open>ast_node\<close> of a unit is not modelled.
\<close>

record CodeUnit =
  unit_name :: string
  unit_type :: CodeType
  unit_file_path :: string
  unit_line_start :: int
  unit_line_end :: int
  unit_complexity :: int
  dependencies :: "string fset"
  unit_docstring :: "string option"
  signature :: "string option"

record TestCase =
  test_name :: string
  test_type :: TestType
  test_file_path :: string
  test_line_start :: int
  test_line_end :: int
  tested_units :: "string fset"
  assertions :: int
  mocks :: int
  complexity :: int
  docstring :: "string option"
  source_code :: "string option"

definition test_key :: "TestCase \<Rightarrow> string \<times> string \<times> int" where
  \<comment> \<open>the triple that \<open>TestCase.__hash__\<close> and \<open>TestCase.__eq__\<close> read\<close>
  "test_key t = (test_name t, test_file_path t, test_line_start t)"

definition test_eq :: "TestCase \<Rightarrow> TestCase \<Rightarrow> bool" where
  \<comment> \<open>\<open>TestCase.__eq__\<close>\<close>
  "test_eq a b = (test_key a = test_key b)"

record QualityMetrics =
  coverage_percentage :: rat
  mutation_score :: rat
  assertion_density :: rat
  test_clarity_score :: float_value
  complexity_score :: rat
  mock_coverage :: rat
  total_tests :: nat
  total_assertions :: int
  total_mocks :: int
  uncovered_units :: "string fset"
  low_quality_tests :: "string list"

section \<open>The external oracle\<close>

text \<open>
  A prompt is the tuple of values that the source interpolates into its template; the
  fixed wording of the template is not modelled. The oracle is a function of its own
  state and the prompt: it answers with the text of \<open>response.content\<close>, or with \<open>None\<close>
  when \<open>invoke\<close> or the read of \<open>content\<close> raises, and moves to a new state.
\<close>

datatype prompt =
  ClarityPrompt string "string option"
| GenerationPrompt string CodeType string int int string string "string list"
| JudgmentPrompt string "string option" string CodeType string string

type_synonym 'o llm = "'o \<Rightarrow> prompt \<Rightarrow> string option \<times> 'o"

datatype message =
  IterationMsg int int
| NoUnitsNeedImprovement
| Targeting nat
| GeneratedHighQuality string
| RejectedLowQuality string
| NoImprovementsMade
| ErrorGenerating string
| ErrorJudging string

text \<open>
  The world outside the framework object: the oracle's state, the lines printed so far and
  the files written so far (name below the tests directory, content), oldest first.
\<close>

record 'o world =
  llm_state :: 'o
  console :: "message list"
  files :: "(string \<times> string) list"

definition invoke :: "'o llm \<Rightarrow> prompt \<Rightarrow> 'o world \<Rightarrow> string option \<times> 'o world" where
  "invoke llm p w = (case llm (llm_state w) p of (r, s) \<Rightarrow> (r, w\<lparr>llm_state := s\<rparr>))"

definition print :: "message \<Rightarrow> 'o world \<Rightarrow> 'o world" where
  "print m w = w\<lparr>console := console w @ [m]\<rparr>"

section \<open>TestAssessorAgent (agents.py)\<close>

definition covered_units :: "TestCase list \<Rightarrow> string fset" where
  \<comment> \<open>the loop \<open>for test in test_cases: covered_units.update(test.tested_units)\<close>\<close>
  "covered_units tests = fold (\<lambda>test covered. covered |\<union>| tested_units test) tests {||}"

definition unit_names :: "CodeUnit list \<Rightarrow> string fset" where
  \<comment> \<open>\<open>{unit.name for unit in code_units}\<close>\<close>
  "unit_names units = fset_of_list (map unit_name units)"

definition rate ::
  "'o llm \<Rightarrow> pyfloat_full \<Rightarrow> TestCase \<Rightarrow> 'o world \<Rightarrow> float_value \<times> 'o world" where
  \<comment> \<open>the \<open>try\<close> block of \<open>_assess_test_clarity\<close>: what one sampled test adds to the total\<close>
  "rate llm pf test w =
     (case invoke llm (ClarityPrompt (test_name test) (source_code test)) w of
        (None, w') \<Rightarrow> (Finite 5, w')
      | (Some content, w') \<Rightarrow>
          (case pf (strip content) of
             None \<Rightarrow> (Finite 5, w')
           | Some score \<Rightarrow> (py_min (py_max score (Finite 0)) (Finite 10), w')))"

fun clarity_total ::
  "'o llm \<Rightarrow> pyfloat_full \<Rightarrow> TestCase list \<Rightarrow> float_value \<Rightarrow> 'o world
     \<Rightarrow> float_value \<times> 'o world" where
  \<comment> \<open>the loop of \<open>_assess_test_clarity\<close> over its slice\<close>
  "clarity_total llm pf [] total_score w = (total_score, w)"
| "clarity_total llm pf (test # tests) total_score w =
     (if truthy (source_code test)
      then (case rate llm pf test w of
              (r, w') \<Rightarrow> clarity_total llm pf tests (fadd total_score r) w')
      else clarity_total llm pf tests total_score w)"

definition assess_test_clarity ::
  "'o llm \<Rightarrow> pyfloat_full \<Rightarrow> TestCase list \<Rightarrow> 'o world \<Rightarrow> float_value \<times> 'o world" where
  "assess_test_clarity llm pf test_cases w =
     (if test_cases = [] then (Finite 0, w)
      else (case clarity_total llm pf (take 10 test_cases) (Finite 0) w of
              (total_score, w') \<Rightarrow>
                (fdiv total_score (min (length test_cases) 10), w')))"

definition issues :: "TestCase \<Rightarrow> string list" where
  \<comment> \<open>the four checks of \<open>_identify_low_quality_tests\<close>, in the source's order\<close>
  "issues test =
     (if assertions test = 0 then [''no assertions''] else []) @
     (if 5 < complexity test then [''high complexity''] else []) @
     (if \<not> truthy (docstring test) then [''no documentation''] else []) @
     (if mocks test = 0 \<and> 0 < assertions test then [''no mocking''] else [])"

fun identify_low_quality_tests :: "TestCase list \<Rightarrow> string list" where
  "identify_low_quality_tests [] = []"
| "identify_low_quality_tests (test # tests) =
     (if issues test \<noteq> []
      then (test_name test @ '' ('' @ join '', '' (issues test) @ '')'')
             # identify_low_quality_tests tests
      else identify_low_quality_tests tests)"

definition assess_quality ::
  "'o llm \<Rightarrow> pyfloat_full \<Rightarrow> CodeUnit list \<Rightarrow> TestCase list \<Rightarrow> 'o world
     \<Rightarrow> QualityMetrics \<times> 'o world" where
  "assess_quality llm pf code_units test_cases w =
     (let covered = covered_units test_cases;
          n = (of_nat (length test_cases) :: rat);
          sum_assertions = sum_list (map assertions test_cases);
          sum_mocks = sum_list (map mocks test_cases);
          sum_complexity = sum_list (map complexity test_cases)
      in case assess_test_clarity llm pf test_cases w of
           (clarity, w') \<Rightarrow>
             (\<lparr>coverage_percentage =
                  (if code_units \<noteq> []
                   then of_nat (fcard covered) / of_nat (length code_units) * 100 else 0),
               mutation_score = 0,
               assertion_density = (if test_cases \<noteq> [] then of_int sum_assertions / n else 0),
               test_clarity_score = clarity,
               complexity_score = (if test_cases \<noteq> [] then of_int sum_complexity / n else 0),
               mock_coverage = (if test_cases \<noteq> [] then of_int sum_mocks / n else 0),
               total_tests = length test_cases,
               total_assertions = sum_assertions,
               total_mocks = sum_mocks,
               uncovered_units = unit_names code_units |-| covered,
               low_quality_tests = identify_low_quality_tests test_cases\<rparr>, w'))"

section \<open>TestGeneratorAgent (agents.py)\<close>

definition or_na :: "string option \<Rightarrow> string" where
  \<comment> \<open>\<open>x or 'N/A'\<close>\<close>
  "or_na x = (case x of None \<Rightarrow> ''N/A'' | Some s \<Rightarrow> (if s = [] then ''N/A'' else s))"

definition create_test_generation_prompt :: "CodeUnit \<Rightarrow> TestCase list \<Rightarrow> prompt" where
  "create_test_generation_prompt code_unit existing_tests =
     GenerationPrompt (unit_name code_unit) (unit_type code_unit) (unit_file_path code_unit)
       (unit_line_start code_unit) (unit_line_end code_unit)
       (or_na (signature code_unit)) (or_na (unit_docstring code_unit))
       (map test_name existing_tests)"

definition extract_test_code :: "string \<Rightarrow> string" where
  "extract_test_code response =
     (if contains ''```python'' response
      then (let start = str_find response ''```python'' 0 + 9;
                stop = str_find response ''```'' (nat start)
            in strip (slice response start stop))
      else if contains ''```'' response
      then (let start = str_find response ''```'' 0 + 3;
                stop = str_find response ''```'' (nat start)
            in strip (slice response start stop))
      else strip response)"

definition count_assertions_in_code :: "string \<Rightarrow> int" where
  "count_assertions_in_code code =
     int (str_count code ''assert '' + str_count code ''.assert'')"

definition count_mocks_in_code :: "string \<Rightarrow> int" where
  "count_mocks_in_code code =
     int (str_count code ''mock'' + str_count code ''Mock'' + str_count code ''patch'')"

definition generated_test :: "CodeUnit \<Rightarrow> string \<Rightarrow> TestCase" where
  \<comment> \<open>the \<open>TestCase\<close> that \<open>generate_tests\<close> builds from the extracted code\<close>
  "generated_test code_unit generated_code =
     \<lparr>test_name = ''test_'' @ unit_name code_unit,
      test_type = UNIT,
      test_file_path = ''tests/test_'' @ unit_name code_unit @ ''.py'',
      test_line_start = 1,
      test_line_end = int (length (split_on newline generated_code)),
      tested_units = {|unit_name code_unit|},
      assertions = count_assertions_in_code generated_code,
      mocks = count_mocks_in_code generated_code,
      complexity = 0,
      docstring = None,
      source_code = Some generated_code\<rparr>"

definition generate_tests ::
  "'o llm \<Rightarrow> CodeUnit \<Rightarrow> TestCase list \<Rightarrow> 'o world \<Rightarrow> TestCase list \<times> 'o world" where
  "generate_tests llm code_unit existing_tests w =
     (case invoke llm (create_test_generation_prompt code_unit existing_tests) w of
        (None, w') \<Rightarrow> ([], print (ErrorGenerating (unit_name code_unit)) w')
      | (Some content, w') \<Rightarrow>
          (let generated_code = extract_test_code content
           in if generated_code \<noteq> [] then ([generated_test code_unit generated_code], w')
              else ([], w')))"

section \<open>TestJudgeAgent (agents.py)\<close>

text \<open>
  The dictionary a judgment is: \<open>criterion_scores\<close> is \<open>None\<close> when the key is absent. A
  \<open>dict\<close> of scores is the list of its items in insertion order.
\<close>

record Judgment =
  overall_score :: rat
  criterion_scores :: "(string \<times> rat) list option"
  feedback :: "string list"

fun dict_set :: "'k \<Rightarrow> 'v \<Rightarrow> ('k \<times> 'v) list \<Rightarrow> ('k \<times> 'v) list" where
  \<comment> \<open>\<open>d[k] = v\<close>\<close>
  "dict_set k v [] = [(k, v)]"
| "dict_set k v ((k', v') # d) =
     (if k' = k then (k', v) # d else (k', v') # dict_set k v d)"

definition criteria :: "string list" where
  "criteria =
     [''coverage'', ''variety'', ''assertion'', ''mocking'', ''readability'', ''documentation'']"

definition mentions_criterion :: "string \<Rightarrow> bool" where
  \<comment> \<open>\<open>any(criterion in line.lower() for criterion in [...])\<close>\<close>
  "mentions_criterion line = list_ex (\<lambda>criterion. contains criterion (lower line)) criteria"

definition read_score :: "pyfloat \<Rightarrow> string \<Rightarrow> (string \<times> rat) option" where
  \<comment> \<open>the \<open>try\<close> block of \<open>_parse_judgment_response\<close>: the item it stores in \<open>scores\<close>;
      \<open>None\<close> when the line has no colon, when \<open>score_text.split()[0]\<close> raises
      \<open>IndexError\<close> or when \<open>float\<close> raises \<open>ValueError\<close>\<close>
  "read_score pf line =
     (case split_on CHR '':'' line of
        p0 # p1 # ps \<Rightarrow>
          (case split_ws (strip p1) of
             [] \<Rightarrow> None
           | tok # toks \<Rightarrow>
               (case pf tok of None \<Rightarrow> None | Some score \<Rightarrow> Some (strip p0, score)))
      | _ \<Rightarrow> None)"

fun parse_lines ::
  "pyfloat \<Rightarrow> string list \<Rightarrow> (string \<times> rat) list \<Rightarrow> string list
     \<Rightarrow> (string \<times> rat) list \<times> string list" where
  \<comment> \<open>the loop of \<open>_parse_judgment_response\<close> over the lines, with its two accumulators\<close>
  "parse_lines pf [] scores fb = (scores, fb)"
| "parse_lines pf (line # lines) scores fb =
     (if mentions_criterion line
      then (case read_score pf line of
              Some (criterion, score) \<Rightarrow> parse_lines pf lines (dict_set criterion score scores) fb
            | None \<Rightarrow> parse_lines pf lines scores fb)
      else if strip line \<noteq> [] \<and> \<not> startswith ''#'' line
      then parse_lines pf lines scores (fb @ [strip line])
      else parse_lines pf lines scores fb)"

definition parse_judgment_response :: "pyfloat \<Rightarrow> string \<Rightarrow> Judgment" where
  "parse_judgment_response pf response =
     (case parse_lines pf (split_on newline response) [] [] of
        (scores, fb) \<Rightarrow>
          \<lparr>overall_score =
              (if scores \<noteq> [] then sum_list (map snd scores) / of_nat (length scores) else 5),
           criterion_scores = Some scores,
           feedback = fb\<rparr>)"

definition judge_test ::
  "'o llm \<Rightarrow> pyfloat \<Rightarrow> TestCase \<Rightarrow> CodeUnit \<Rightarrow> 'o world \<Rightarrow> Judgment \<times> 'o world" where
  "judge_test llm pf test_case code_unit w =
     (case invoke llm
             (JudgmentPrompt (test_name test_case) (source_code test_case)
                (unit_name code_unit) (unit_type code_unit)
                (or_na (signature code_unit)) (or_na (unit_docstring code_unit))) w of
        (None, w') \<Rightarrow>
          (\<lparr>overall_score = 5, criterion_scores = None,
            feedback = [''Error in evaluation'']\<rparr>,
           print (ErrorJudging (test_name test_case)) w')
      | (Some content, w') \<Rightarrow> (parse_judgment_response pf content, w'))"

section \<open>TestingFramework (framework.py)\<close>

text \<open>
  The fields of the framework object that the improvement loop reads and writes. The
  order in which Python iterates over a \<open>set\<close> is not fixed by the language; the loop
  takes it as the parameter \<open>enum\<close>.
\<close>

record TestingFramework =
  code_units :: "CodeUnit list"
  test_cases :: "TestCase list"
  generated_tests :: "TestCase list"

type_synonym set_order = "string fset \<Rightarrow> string list"

definition identify_uncovered_units :: "TestingFramework \<Rightarrow> string fset" where
  "identify_uncovered_units fw = unit_names (code_units fw) |-| covered_units (test_cases fw)"

definition identify_low_quality_units :: "TestingFramework \<Rightarrow> string fset" where
  \<comment> \<open>\<open>unit_tests[n]\<close> is the list of the tests whose \<open>tested_units\<close> hold \<open>n\<close>; its keys are
      the covered names\<close>
  "identify_low_quality_units fw =
     ffilter
       (\<lambda>n. let tests = filter (\<lambda>test. n |\<in>| tested_units test) (test_cases fw)
            in sum_list (map assertions tests) < 3 \<or> sum_list (map mocks tests) < 1)
       (covered_units (test_cases fw))"

definition find_code_unit :: "TestingFramework \<Rightarrow> string \<Rightarrow> CodeUnit option" where
  "find_code_unit fw n = List.find (\<lambda>unit. unit_name unit = n) (code_units fw)"

definition path_name :: "string \<Rightarrow> string" where
  \<comment> \<open>\<open>Path(p).name\<close>: the text after the last slash\<close>
  "path_name p = last (split_on CHR ''/'' p)"

definition file_header :: string where
  "file_header =
     ''import pytest'' @ [newline] @ ''from pathlib import Path'' @ [newline] @
     ''import sys'' @ [newline] @ [newline] @
     ''# Add src to path for imports'' @ [newline] @
     ''sys.path.insert(0, str(Path(__file__).parent.parent / '' @ [CHR 0x22] @ ''src'' @
       [CHR 0x22] @ ''))'' @ [newline] @ [newline]"

definition save_test_case :: "TestCase \<Rightarrow> 'o world \<Rightarrow> 'o world" where
  "save_test_case test_case w =
     w\<lparr>files := files w @
        [(path_name (test_file_path test_case),
          file_header @ (case source_code test_case of None \<Rightarrow> ''None'' | Some s \<Rightarrow> s)
            @ [newline])]\<rparr>"

definition accept_test ::
  "string \<Rightarrow> TestCase \<Rightarrow> TestingFramework \<times> 'o world \<Rightarrow> TestingFramework \<times> 'o world" where
  \<comment> \<open>the branch of the loop taken at or above the quality threshold\<close>
  "accept_test n test s =
     (case s of (fw, w) \<Rightarrow>
        (fw\<lparr>test_cases := test_cases fw @ [test],
            generated_tests := generated_tests fw @ [test]\<rparr>,
         print (GeneratedHighQuality n) (save_test_case test w)))"

definition consider_candidate ::
  "'o llm \<Rightarrow> pyfloat \<Rightarrow> CodeUnit \<Rightarrow> string \<Rightarrow> TestCase
     \<Rightarrow> bool \<times> TestingFramework \<times> 'o world \<Rightarrow> bool \<times> TestingFramework \<times> 'o world" where
  \<comment> \<open>the body of \<open>for test in new_tests\<close>; the flag is \<open>improvements_made\<close>\<close>
  "consider_candidate llm pf unit n test s =
     (case s of (improvements_made, fw, w) \<Rightarrow>
        (case judge_test llm pf test unit w of
           (j, w') \<Rightarrow>
             (if 7 \<le> overall_score j
              then (case accept_test n test (fw, w') of (fw', w'') \<Rightarrow> (True, fw', w''))
              else (improvements_made, fw, print (RejectedLowQuality n) w'))))"

definition improve_unit ::
  "'o llm \<Rightarrow> pyfloat \<Rightarrow> string
     \<Rightarrow> bool \<times> TestingFramework \<times> 'o world \<Rightarrow> bool \<times> TestingFramework \<times> 'o world" where
  \<comment> \<open>the body of \<open>for unit_name in target_units[:5]\<close>\<close>
  "improve_unit llm pf n s =
     (case s of (improvements_made, fw, w) \<Rightarrow>
        (case find_code_unit fw n of
           None \<Rightarrow> s
         | Some unit \<Rightarrow>
             (case generate_tests llm unit (test_cases fw) w of
                (new_tests, w') \<Rightarrow>
                  fold (consider_candidate llm pf unit n) new_tests
                    (improvements_made, fw, w'))))"

definition target_units :: "set_order \<Rightarrow> TestingFramework \<Rightarrow> string list" where
  "target_units enum fw =
     enum (identify_uncovered_units fw) @ enum (identify_low_quality_units fw)"

definition run_iteration ::
  "'o llm \<Rightarrow> pyfloat \<Rightarrow> set_order \<Rightarrow> int \<Rightarrow> int
     \<Rightarrow> TestingFramework \<times> 'o world \<Rightarrow> bool \<times> TestingFramework \<times> 'o world" where
  \<comment> \<open>the body of \<open>for iteration in range(max_iterations)\<close>; the flag returned is \<open>False\<close>
      when the body leaves the loop by \<open>break\<close>\<close>
  "run_iteration llm pf enum max_iterations iteration s =
     (case s of (fw, w) \<Rightarrow>
        (let w1 = print (IterationMsg (iteration + 1) max_iterations) w;
             targets = target_units enum fw
         in if targets = [] then (False, fw, print NoUnitsNeedImprovement w1)
            else (case fold (improve_unit llm pf) (take 5 targets)
                         (False, fw, print (Targeting (length targets)) w1) of
                    (improvements_made, fw', w') \<Rightarrow>
                      (if \<not> improvements_made then (False, fw', print NoImprovementsMade w')
                       else (True, fw', w')))))"

fun improve_loop ::
  "'o llm \<Rightarrow> pyfloat \<Rightarrow> set_order \<Rightarrow> int \<Rightarrow> int list
     \<Rightarrow> TestingFramework \<times> 'o world \<Rightarrow> TestingFramework \<times> 'o world" where
  "improve_loop llm pf enum max_iterations [] s = s"
| "improve_loop llm pf enum max_iterations (iteration # rest) s =
     (case run_iteration llm pf enum max_iterations iteration s of
        (continue, s') \<Rightarrow>
          (if continue then improve_loop llm pf enum max_iterations rest s' else s'))"

definition improve_tests_iteratively ::
  "'o llm \<Rightarrow> pyfloat \<Rightarrow> set_order \<Rightarrow> int
     \<Rightarrow> TestingFramework \<times> 'o world \<Rightarrow> TestingFramework \<times> 'o world" where
  \<comment> \<open>\<open>range(max_iterations)\<close> is the list \<open>[0..max_iterations - 1]\<close>\<close>
  "improve_tests_iteratively llm pf enum max_iterations s =
     improve_loop llm pf enum max_iterations [0..max_iterations - 1] s"

section \<open>Notions used to state and prove the properties\<close>

definition flagged :: "TestCase \<Rightarrow> bool" where
  \<comment> \<open>the flagging rule in the specification's words; a docstring that is absent or empty
      counts as no docstring\<close>
  "flagged test =
     (assertions test = 0 \<or> 5 < complexity test \<or> (\<not> truthy (docstring test)) \<or>
      (0 < assertions test \<and> mocks test = 0))"

definition diagnostic :: "TestCase \<Rightarrow> string" where
  \<comment> \<open>the entry of a flagged test: its name, then its reasons in parentheses\<close>
  "diagnostic test = test_name test @ '' ('' @ join '', '' (issues test) @ '')''"

fun ratings ::
  "'o llm \<Rightarrow> pyfloat_full \<Rightarrow> TestCase list \<Rightarrow> 'o world
     \<Rightarrow> float_value list \<times> 'o world" where
  \<comment> \<open>one rating per test of a sample, the oracle consulted in the sample's order\<close>
  "ratings llm pf [] w = ([], w)"
| "ratings llm pf (test # tests) w =
     (case rate llm pf test w of
        (r, w') \<Rightarrow> (case ratings llm pf tests w' of (rs, w'') \<Rightarrow> (r # rs, w'')))"

definition has_source :: "TestCase \<Rightarrow> bool" where
  "has_source test = truthy (source_code test)"

definition total_of :: "float_value list \<Rightarrow> float_value" where
  \<comment> \<open>the ratings added up from 0.0, first to last\<close>
  "total_of rs = foldl fadd (Finite 0) rs"

definition clarity_as_specified ::
  "'o llm \<Rightarrow> pyfloat_full \<Rightarrow> TestCase list \<Rightarrow> 'o world \<Rightarrow> float_value \<times> 'o world" where
  \<comment> \<open>the clarity score in the specification's words: the sample is the first ten of the
      tests that have source code, and the average is over the sample\<close>
  "clarity_as_specified llm pf tests w =
     (if tests = [] then (Finite 0, w)
      else (case ratings llm pf (take 10 (filter has_source tests)) w of
              (rs, w') \<Rightarrow> (fdiv (total_of rs) (length rs), w')))"

fun in_range :: "float_value \<Rightarrow> bool" where
  \<comment> \<open>a number between 0 and 10\<close>
  "in_range (Finite x) = (0 \<le> x \<and> x \<le> 10)"
| "in_range v = False"

fun number_of :: "float_value \<Rightarrow> rat" where
  \<comment> \<open>the number a finite float is\<close>
  "number_of (Finite x) = x"
| "number_of v = 0"

fun nan_free :: "'o llm \<Rightarrow> pyfloat_full \<Rightarrow> TestCase list \<Rightarrow> 'o world \<Rightarrow> bool" where
  \<comment> \<open>no answer that the oracle gives for the tests of a sample, consulted in the sample's
      order, is one that \<open>float\<close> parses to NaN\<close>
  "nan_free llm pf [] w = True"
| "nan_free llm pf (test # tests) w =
     (case invoke llm (ClarityPrompt (test_name test) (source_code test)) w of
        (None, w') \<Rightarrow> nan_free llm pf tests w'
      | (Some content, w') \<Rightarrow>
          pf (strip content) \<noteq> Some NaN \<and> nan_free llm pf tests w')"

fun is_iteration :: "message \<Rightarrow> bool" where
  "is_iteration (IterationMsg i n) = True"
| "is_iteration m = False"

definition iterations :: "message list \<Rightarrow> nat" where
  \<comment> \<open>how many iterations a console shows: one line per iteration entered\<close>
  "iterations msgs = length (filter is_iteration msgs)"

fun every_iteration_improves ::
  "'o llm \<Rightarrow> pyfloat \<Rightarrow> set_order \<Rightarrow> int \<Rightarrow> int list
     \<Rightarrow> TestingFramework \<times> 'o world \<Rightarrow> bool" where
  \<comment> \<open>no iteration of the run leaves the loop by \<open>break\<close>\<close>
  "every_iteration_improves llm pf enum max_iterations [] s = True"
| "every_iteration_improves llm pf enum max_iterations (iteration # rest) s =
     (case run_iteration llm pf enum max_iterations iteration s of
        (continue, s') \<Rightarrow>
          continue \<and> every_iteration_improves llm pf enum max_iterations rest s')"

definition opening_marker :: "string \<Rightarrow> string option" where
  \<comment> \<open>the code-fence marker that \<open>_extract_test_code\<close> searches for, if any\<close>
  "opening_marker response =
     (if contains ''```python'' response then Some ''```python''
      else if contains ''```'' response then Some ''```''
      else None)"

definition is_feedback_line :: "string \<Rightarrow> bool" where
  \<comment> \<open>a line that holds no criterion keyword, is not blank and does not start with \<open>#\<close>\<close>
  "is_feedback_line line =
     ((\<not> mentions_criterion line) \<and> strip line \<noteq> [] \<and> (\<not> startswith ''#'' line))"

definition is_score_line :: "pyfloat \<Rightarrow> string \<Rightarrow> bool" where
  \<comment> \<open>a line that holds a criterion keyword and from which a score is read\<close>
  "is_score_line pf line = (mentions_criterion line \<and> read_score pf line \<noteq> None)"

definition parsed_scores :: "pyfloat \<Rightarrow> string list \<Rightarrow> (string \<times> rat) list" where
  \<comment> \<open>the items read from the score lines, in the order of the lines\<close>
  "parsed_scores pf lines =
     List.map_filter (\<lambda>line. if mentions_criterion line then read_score pf line else None) lines"

definition store_all ::
  "(string \<times> rat) list \<Rightarrow> (string \<times> rat) list \<Rightarrow> (string \<times> rat) list" where
  \<comment> \<open>the dictionary after storing the items one by one\<close>
  "store_all items scores = fold (\<lambda>item d. dict_set (fst item) (snd item) d) items scores"

definition grows ::
  "bool \<times> TestingFramework \<times> 'o world \<Rightarrow> bool \<times> TestingFramework \<times> 'o world \<Rightarrow> bool" where
  \<comment> \<open>what a step inside an iteration may do to the loop's state: it starts no iteration,
      it only appends to \<open>generated_tests\<close>, and it raises the flag exactly when it appends\<close>
  "grows s s' =
     (iterations (console (snd (snd s'))) = iterations (console (snd (snd s))) \<and>
      (\<exists>xs. generated_tests (fst (snd s')) = generated_tests (fst (snd s)) @ xs \<and>
            fst s' = (fst s \<or> xs \<noteq> [])))"

section \<open>Example inputs\<close>

fun nat_of_digits :: "string \<Rightarrow> nat \<Rightarrow> nat option" where
  "nat_of_digits [] acc = Some acc"
| "nat_of_digits (c # cs) acc =
     (let n = (of_char c :: nat)
      in if 48 \<le> n \<and> n \<le> 57 then nat_of_digits cs (10 * acc + (n - 48)) else None)"

definition float_of_digits :: pyfloat where
  \<comment> \<open>\<open>float\<close> on the strings the examples give it: a non-empty string of decimal digits
      is its number, and a string that holds no digit at all is a \<open>ValueError\<close>\<close>
  "float_of_digits s = (if s = [] then None else map_option of_nat (nat_of_digits s 0))"

definition float_of_text :: pyfloat_full where
  \<comment> \<open>\<open>float\<close> on the strings the examples give it, with its non-finite results: \<open>nan\<close> in
      any case is NaN, and the rest is as \<open>float_of_digits\<close>\<close>
  "float_of_text s =
     (if lower s = ''nan'' then Some NaN else map_option Finite (float_of_digits s))"

definition nan_llm :: "nat llm" where
  \<comment> \<open>an oracle that answers \<open>nan\<close> to every prompt\<close>
  "nan_llm s p = (Some ''nan'', Suc s)"

definition unit_a :: CodeUnit where
  "unit_a =
     \<lparr>unit_name = ''a'', unit_type = FUNCTION, unit_file_path = ''src/m.py'',
      unit_line_start = 1, unit_line_end = 2, unit_complexity = 0, dependencies = {||},
      unit_docstring = None, signature = None\<rparr>"

definition plain_test :: "string \<Rightarrow> string fset \<Rightarrow> string option \<Rightarrow> TestCase" where
  \<comment> \<open>a discovered test with the given name, tested units and source code\<close>
  "plain_test n units src =
     \<lparr>test_name = n, test_type = UNIT, test_file_path = ''tests/test_m.py'',
      test_line_start = 1, test_line_end = 2, tested_units = units,
      assertions = 5, mocks = 1, complexity = 2, docstring = Some ''x'',
      source_code = src\<rparr>"

definition good_llm :: "nat llm" where
  \<comment> \<open>an oracle that counts its calls, rates every test 8, writes a one-line test and
      judges every candidate 8\<close>
  "good_llm s p =
     (case p of
        ClarityPrompt x1 x2 \<Rightarrow> (Some ''8'', Suc s)
      | GenerationPrompt x1 x2 x3 x4 x5 x6 x7 x8 \<Rightarrow> (Some ''assert f()'', Suc s)
      | JudgmentPrompt x1 x2 x3 x4 x5 x6 \<Rightarrow> (Some ''coverage: 8'', Suc s))"

definition strict_llm :: "nat llm" where
  \<comment> \<open>as \<open>good_llm\<close>, but it judges every candidate 6\<close>
  "strict_llm s p =
     (case p of
        ClarityPrompt x1 x2 \<Rightarrow> (Some ''8'', Suc s)
      | GenerationPrompt x1 x2 x3 x4 x5 x6 x7 x8 \<Rightarrow> (Some ''assert f()'', Suc s)
      | JudgmentPrompt x1 x2 x3 x4 x5 x6 \<Rightarrow> (Some ''coverage: 6'', Suc s))"

definition failing_llm :: "nat llm" where
  \<comment> \<open>an oracle whose every call raises\<close>
  "failing_llm s p = (None, Suc s)"

definition world0 :: "nat world" where
  "world0 = \<lparr>llm_state = 0, console = [], files = []\<rparr>"

definition framework0 :: TestingFramework where
  "framework0 = \<lparr>code_units = [unit_a], test_cases = [], generated_tests = []\<rparr>"

definition stale_test :: TestCase where
  \<comment> \<open>a test whose tested units are names of no unit\<close>
  "stale_test = plain_test ''test_old'' {|''x'', ''y''|} None"

definition bare_test :: TestCase where
  "bare_test = (plain_test ''test_bare'' {||} None)\<lparr>assertions := 0, docstring := None\<rparr>"

definition unmocked_test :: TestCase where
  "unmocked_test = (plain_test ''test_unmocked'' {||} None)\<lparr>mocks := 0\<rparr>"

definition sourced_test :: TestCase where
  "sourced_test = plain_test ''test_s'' {||} (Some ''assert f()'')"

definition sourceless_test :: TestCase where
  "sourceless_test = plain_test ''test_n'' {||} None"

definition example_response :: string where
  "example_response =
     ''Coverage: 8'' @ [newline] @ ''Good names'' @ [newline] @ ''Mocking: none'' @ [newline] @
     ''Coverage: 6 of 10''"

definition borderline_llm :: "nat llm" where
  \<comment> \<open>as \<open>good_llm\<close>, but it judges every candidate 7\<close>
  "borderline_llm s p =
     (case p of
        ClarityPrompt x1 x2 \<Rightarrow> (Some ''8'', Suc s)
      | GenerationPrompt x1 x2 x3 x4 x5 x6 x7 x8 \<Rightarrow> (Some ''assert f()'', Suc s)
      | JudgmentPrompt x1 x2 x3 x4 x5 x6 \<Rightarrow> (Some ''coverage: 7'', Suc s))"

definition candidate_a :: TestCase where
  "candidate_a = generated_test unit_a ''assert f()''"

definition framework1 :: TestingFramework where
  \<comment> \<open>the working set already holds the test generated for unit \<open>a\<close>\<close>
  "framework1 = \<lparr>code_units = [unit_a], test_cases = [candidate_a], generated_tests = []\<rparr>"

definition empty_framework :: TestingFramework where
  "empty_framework = \<lparr>code_units = [], test_cases = [], generated_tests = []\<rparr>"

definition unclosed_response :: string where
  \<comment> \<open>a response that opens a code fence and never closes it\<close>
  "unclosed_response = ''```python'' @ [newline] @ ''x = 1'' @ [newline]"

section \<open>Coverage and uncovered units\<close>

lemma fset_fold_union:
  "fset (fold (\<lambda>test covered. covered |\<union>| tested_units test) tests acc) =
     fset acc \<union> (\<Union>t\<in>set tests. fset (tested_units t))"
  by (induction tests arbitrary: acc) auto

lemma fset_covered_units:
  "fset (covered_units tests) = (\<Union>t\<in>set tests. fset (tested_units t))"
  by (simp add: covered_units_def fset_fold_union)

lemma fset_unit_names: "fset (unit_names units) = unit_name ` set units"
  by (simp add: unit_names_def fset_of_list.rep_eq)

lemma fcard_unit_names_le: "fcard (unit_names units) \<le> length units"
  unfolding unit_names_def fcard.rep_eq fset_of_list.rep_eq
  by (metis card_length length_map)

lemma coverage_percentage_eq:
  "coverage_percentage (fst (assess_quality llm pf U T w)) =
     (if U \<noteq> [] then of_nat (fcard (covered_units T)) / of_nat (length U) * 100 else 0)"
  by (simp add: assess_quality_def Let_def split: prod.splits)

lemma uncovered_units_eq:
  "uncovered_units (fst (assess_quality llm pf U T w)) = unit_names U |-| covered_units T"
  by (simp add: assess_quality_def Let_def split: prod.splits)

text \<open>
  Claim C1, as amended. For all units \<open>U\<close> and tests \<open>T\<close> whose tested units are all names
  of units of \<open>U\<close>, the coverage percentage of \<open>assess_quality\<close> lies between 0 and 100, and it
  is 0 exactly when \<open>U\<close> is empty or no test of \<open>T\<close> covers a unit of \<open>U\<close>.
\<close>

theorem coverage_percentage_range:
  assumes known: "(\<Union>t\<in>set T. fset (tested_units t)) \<subseteq> unit_name ` set U"
  shows "0 \<le> coverage_percentage (fst (assess_quality llm pf U T w)) \<and>
         coverage_percentage (fst (assess_quality llm pf U T w)) \<le> 100 \<and>
         (coverage_percentage (fst (assess_quality llm pf U T w)) = 0) =
           (U = [] \<or> (\<forall>t\<in>set T. \<forall>u\<in>set U. unit_name u |\<notin>| tested_units t))"
proof (cases "U = []")
  case True
  then show ?thesis by (simp add: coverage_percentage_eq)
next
  case False
  let ?c = "fcard (covered_units T)"
  have sub: "covered_units T |\<subseteq>| unit_names U"
    using known by (simp add: less_eq_fset.rep_eq fset_covered_units fset_unit_names)
  have len: "0 < length U" using False by simp
  have "?c \<le> fcard (unit_names U)" using sub by (rule fcard_mono)
  then have le: "?c \<le> length U" using fcard_unit_names_le [of U] by linarith
  have upper: "(of_nat ?c :: rat) / of_nat (length U) * 100 \<le> 100"
    using le len by (simp add: divide_le_eq)
  have lower: "0 \<le> (of_nat ?c :: rat) / of_nat (length U) * 100" by simp
  have zero: "((of_nat ?c :: rat) / of_nat (length U) * 100 = 0) = (covered_units T = {||})"
    using len by simp
  have "(covered_units T = {||}) = (\<forall>t\<in>set T. \<forall>u\<in>set U. unit_name u |\<notin>| tested_units t)"
  proof
    assume "covered_units T = {||}"
    then have "fset (covered_units T) = {}" by simp
    then show "\<forall>t\<in>set T. \<forall>u\<in>set U. unit_name u |\<notin>| tested_units t"
      unfolding fset_covered_units by auto
  next
    assume none: "\<forall>t\<in>set T. \<forall>u\<in>set U. unit_name u |\<notin>| tested_units t"
    have "fset (covered_units T) \<subseteq> fset (unit_names U)"
      using sub by (simp add: less_eq_fset.rep_eq)
    then have "fset (covered_units T) = {}"
      using none unfolding fset_covered_units fset_unit_names by fastforce
    then show "covered_units T = {||}" by (simp add: bot_fset.rep_eq fset_inject [symmetric])
  qed
  with zero lower upper False show ?thesis by (simp add: coverage_percentage_eq)
qed

text \<open>One unit and one test that covers it: the hypothesis holds and the coverage is 100.\<close>

theorem coverage_percentage_range_witness:
  "(\<Union>t\<in>set [plain_test ''test_a'' {|''a''|} None]. fset (tested_units t))
     \<subseteq> unit_name ` set [unit_a] \<and>
   coverage_percentage
     (fst (assess_quality good_llm float_of_text [unit_a]
        [plain_test ''test_a'' {|''a''|} None] world0)) = 100"
  using coverage_percentage_range
    [of "[plain_test ''test_a'' {|''a''|} None]" "[unit_a]" good_llm float_of_text world0]
  by (simp add: coverage_percentage_eq covered_units_def unit_names_def plain_test_def
      unit_a_def fcard_finsert_if)

text \<open>
  Claim C1 as stated fails: one unit \<open>a\<close> and one test whose tested units are the two stale
  names \<open>x\<close> and \<open>y\<close> give a coverage of 200, which is above 100 and is not 0 although no
  test covers a unit.
\<close>

theorem coverage_percentage_counterexample:
  "\<not> (coverage_percentage
         (fst (assess_quality good_llm float_of_text [unit_a] [stale_test] world0)) \<le> 100) \<and>
   \<not> ((coverage_percentage
          (fst (assess_quality good_llm float_of_text [unit_a] [stale_test] world0)) = 0) =
        ([unit_a] = [] \<or>
         (\<forall>t\<in>set [stale_test]. \<forall>u\<in>set [unit_a]. unit_name u |\<notin>| tested_units t)))"
  by (simp add: coverage_percentage_eq covered_units_def stale_test_def plain_test_def
      unit_a_def fcard_finsert_if)

text \<open>
  Claim C2. The \<open>uncovered_units\<close> of \<open>assess_quality\<close> are the names of the units minus the
  union of the tested units of all tests, and \<open>_identify_uncovered_units\<close> computes the same
  difference over the framework's state.
\<close>

theorem uncovered_units_set_difference:
  "fset (uncovered_units (fst (assess_quality llm pf U T w))) =
     unit_name ` set U - (\<Union>t\<in>set T. fset (tested_units t)) \<and>
   fset (identify_uncovered_units fw) =
     unit_name ` set (code_units fw) - (\<Union>t\<in>set (test_cases fw). fset (tested_units t))"
  by (simp add: uncovered_units_eq identify_uncovered_units_def fset_covered_units
      fset_unit_names)

section \<open>Clarity score\<close>

lemma clarity_total_ratings:
  "clarity_total llm pf tests acc w =
     (case ratings llm pf (filter has_source tests) w of (rs, w') \<Rightarrow> (foldl fadd acc rs, w'))"
  by (induction tests arbitrary: acc w) (simp_all add: has_source_def split: prod.splits)

lemma length_ratings: "length (fst (ratings llm pf sample w)) = length sample"
proof (induction sample arbitrary: w)
  case Nil
  then show ?case by simp
next
  case (Cons t ts)
  obtain r0 w0 where r0: "rate llm pf t w = (r0, w0)" by force
  obtain rs w1 where rs: "ratings llm pf ts w0 = (rs, w1)" by force
  from Cons.IH [of w0] rs have "length rs = length ts" by simp
  then show ?case using r0 rs by simp
qed

lemma clamp_in_range:
  "score \<noteq> NaN \<Longrightarrow> in_range (py_min (py_max score (Finite 0)) (Finite 10))"
  by (cases score) (auto simp add: py_min_def py_max_def)

lemma rate_eq:
  "fst (rate llm pf test w) =
     (case fst (invoke llm (ClarityPrompt (test_name test) (source_code test)) w) of
        None \<Rightarrow> Finite 5
      | Some content \<Rightarrow>
          (case pf (strip content) of
             None \<Rightarrow> Finite 5
           | Some score \<Rightarrow> py_min (py_max score (Finite 0)) (Finite 10)))"
  by (simp add: rate_def split: prod.splits option.splits)

lemma snd_rate:
  "snd (rate llm pf test w) =
     snd (invoke llm (ClarityPrompt (test_name test) (source_code test)) w)"
  by (simp add: rate_def split: prod.splits option.splits)

lemma ratings_in_range:
  "nan_free llm pf sample w \<Longrightarrow> r \<in> set (fst (ratings llm pf sample w)) \<Longrightarrow> in_range r"
proof (induction sample arbitrary: w)
  case Nil
  then show ?case by simp
next
  case (Cons t ts)
  let ?p = "ClarityPrompt (test_name t) (source_code t)"
  obtain a w0 where i: "invoke llm ?p w = (a, w0)" by force
  obtain r0 where r0: "rate llm pf t w = (r0, w0)"
    using snd_rate [of llm pf t w] i by (cases "rate llm pf t w") simp
  obtain rs w1 where rs: "ratings llm pf ts w0 = (rs, w1)" by force
  have free: "nan_free llm pf ts w0" using Cons.prems(1) i by (cases a) simp_all
  have first: "in_range r0"
  proof (cases a)
    case None
    then show ?thesis using rate_eq [of llm pf t w] i r0 by simp
  next
    case (Some content)
    then have n: "pf (strip content) \<noteq> Some NaN" using Cons.prems(1) i by simp
    show ?thesis
    proof (cases "pf (strip content)")
      case None
      then show ?thesis using rate_eq [of llm pf t w] i r0 Some by simp
    next
      case (Some score)
      then have "score \<noteq> NaN" using n by simp
      then have "in_range (py_min (py_max score (Finite 0)) (Finite 10))"
        by (rule clamp_in_range)
      then show ?thesis using rate_eq [of llm pf t w] i r0 Some \<open>a = Some content\<close> by simp
    qed
  qed
  from Cons.prems(2) r0 rs have "r = r0 \<or> r \<in> set (fst (ratings llm pf ts w0))" by auto
  then show ?case
  proof
    assume "r = r0"
    then show ?thesis using first by simp
  next
    assume "r \<in> set (fst (ratings llm pf ts w0))"
    with free show ?thesis by (rule Cons.IH)
  qed
qed

lemma foldl_fadd_numbers:
  "\<forall>r\<in>set rs. in_range r \<Longrightarrow>
     foldl fadd (Finite a) rs = Finite (a + sum_list (map number_of rs))"
proof (induction rs arbitrary: a)
  case Nil
  then show ?case by simp
next
  case (Cons r rs)
  then obtain x where x: "r = Finite x" by (cases r) simp_all
  from Cons.prems have "\<forall>r\<in>set rs. in_range r" by simp
  from Cons.IH [OF this, of "a + x"] show ?case using x by (simp add: add.assoc)
qed

text \<open>
  Claim C5, as amended. \<open>_assess_test_clarity\<close> samples the tests with non-empty source code
  among the first 10 tests and obtains one rating per sampled test: the oracle's number
  passed through \<open>min(max(score, 0), 10)\<close>, or 5 when the oracle raises or its answer does
  not parse. A rating lies within 0 and 10 whenever the answer does not parse to NaN. The
  score is the sum of the ratings divided by the smaller of the number of tests and 10,
  or 0 when there are no tests: a test without source code among the first 10 adds nothing
  to the sum and counts in the denominator.
\<close>

theorem test_clarity_score_value:
  "assess_test_clarity llm pf tests w =
     (if tests = [] then (Finite 0, w)
      else (case ratings llm pf (filter has_source (take 10 tests)) w of
              (rs, w') \<Rightarrow> (fdiv (total_of rs) (min (length tests) 10), w'))) \<and>
   length (fst (ratings llm pf sample w)) = length sample \<and>
   (nan_free llm pf sample w \<longrightarrow>
      (\<forall>r\<in>set (fst (ratings llm pf sample w)). in_range r) \<and>
      total_of (fst (ratings llm pf sample w)) =
        Finite (sum_list (map number_of (fst (ratings llm pf sample w))))) \<and>
   (tests \<noteq> [] \<and> nan_free llm pf (filter has_source (take 10 tests)) w \<longrightarrow>
      fst (assess_test_clarity llm pf tests w) =
        Finite (sum_list (map number_of
                  (fst (ratings llm pf (filter has_source (take 10 tests)) w))) /
                of_nat (min (length tests) 10))) \<and>
   fst (rate llm pf test w) =
     (case fst (invoke llm (ClarityPrompt (test_name test) (source_code test)) w) of
        None \<Rightarrow> Finite 5
      | Some content \<Rightarrow>
          (case pf (strip content) of
             None \<Rightarrow> Finite 5
           | Some score \<Rightarrow> py_min (py_max score (Finite 0)) (Finite 10))) \<and>
   (number \<noteq> NaN \<longrightarrow> in_range (py_min (py_max number (Finite 0)) (Finite 10)))"
proof -
  have 1: "assess_test_clarity llm pf tests w =
     (if tests = [] then (Finite 0, w)
      else (case ratings llm pf (filter has_source (take 10 tests)) w of
              (rs, w') \<Rightarrow> (fdiv (total_of rs) (min (length tests) 10), w')))"
    by (simp add: assess_test_clarity_def clarity_total_ratings total_of_def
        split: prod.splits)
  have 2: "nan_free llm pf s w \<longrightarrow>
      (\<forall>r\<in>set (fst (ratings llm pf s w)). in_range r) \<and>
      total_of (fst (ratings llm pf s w)) =
        Finite (sum_list (map number_of (fst (ratings llm pf s w))))" for s
  proof
    assume f: "nan_free llm pf s w"
    then have a: "\<forall>r\<in>set (fst (ratings llm pf s w)). in_range r"
      using ratings_in_range by blast
    from foldl_fadd_numbers [OF a, of 0] show
      "(\<forall>r\<in>set (fst (ratings llm pf s w)). in_range r) \<and>
       total_of (fst (ratings llm pf s w)) =
         Finite (sum_list (map number_of (fst (ratings llm pf s w))))"
      using a by (simp add: total_of_def)
  qed
  have 3: "tests \<noteq> [] \<and> nan_free llm pf (filter has_source (take 10 tests)) w \<longrightarrow>
      fst (assess_test_clarity llm pf tests w) =
        Finite (sum_list (map number_of
                  (fst (ratings llm pf (filter has_source (take 10 tests)) w))) /
                of_nat (min (length tests) 10))"
    using 1 2 [of "filter has_source (take 10 tests)"] by (auto split: prod.splits)
  have 4: "number \<noteq> NaN \<longrightarrow> in_range (py_min (py_max number (Finite 0)) (Finite 10))"
    using clamp_in_range by blast
  show ?thesis
    using 1 2 [of sample] 3 4 rate_eq [of llm pf test w] length_ratings [of llm pf sample w]
    by blast
qed

text \<open>
  Two tests, the first with source code and rated 8, the second without: the sample is the
  first test, no answer is NaN, and the score is 8 / 2.
\<close>

theorem test_clarity_score_value_witness:
  "nan_free good_llm float_of_text [sourced_test] world0 \<and>
   assess_test_clarity good_llm float_of_text [sourced_test, sourceless_test] world0 =
     (Finite 4, world0\<lparr>llm_state := 1\<rparr>) \<and>
   fst (ratings good_llm float_of_text [sourced_test] world0) = [Finite 8]"
proof -
  have a: "nan_free good_llm float_of_text [sourced_test] world0" by code_simp
  have b: "filter has_source (take 10 [sourced_test, sourceless_test]) = [sourced_test]"
    by code_simp
  have c: "ratings good_llm float_of_text [sourced_test] world0 =
      ([Finite 8], world0\<lparr>llm_state := 1\<rparr>)"
    by code_simp
  have e: "total_of [Finite 8] = Finite 8" by (simp add: total_of_def)
  note t = test_clarity_score_value [where llm = good_llm and pf = float_of_text
      and tests = "[sourced_test, sourceless_test]" and w = world0
      and sample = "[sourced_test]" and test = sourced_test and number = "Finite 8"]
  have f: "assess_test_clarity good_llm float_of_text [sourced_test, sourceless_test] world0 =
      (Finite 4, world0\<lparr>llm_state := 1\<rparr>)"
    using conjunct1 [OF t] unfolding b c by (simp add: e)
  show ?thesis using a f c by simp
qed

text \<open>
  Claim C5 as stated fails. With one test that has source code (rated 8) and one that has
  none, the code returns 4 where the average over the sample is 8; with ten tests without
  source code before one with source code, the code samples nothing and returns 0.
\<close>

theorem test_clarity_score_counterexample:
  "fst (assess_test_clarity good_llm float_of_text [sourced_test, sourceless_test] world0)
     = Finite 4 \<and>
   fst (clarity_as_specified good_llm float_of_text [sourced_test, sourceless_test] world0)
     = Finite 8 \<and>
   fst (assess_test_clarity good_llm float_of_text
          (replicate 10 sourceless_test @ [sourced_test]) world0) = Finite 0 \<and>
   fst (clarity_as_specified good_llm float_of_text
          (replicate 10 sourceless_test @ [sourced_test]) world0) = Finite 8"
  by code_simp

text \<open>
  An answer that \<open>float\<close> parses to NaN passes \<open>min\<close> and \<open>max\<close> unchanged, since every
  comparison with NaN is false, and the rating and the score are then NaN.
\<close>

lemma rate_nan_answer:
  "fst (rate nan_llm float_of_text sourced_test world0) = NaN \<and>
   fst (assess_test_clarity nan_llm float_of_text [sourced_test] world0) = NaN"
  by code_simp

section \<open>Low-quality tests\<close>

lemma issues_empty_iff: "(issues test \<noteq> []) = flagged test"
  by (auto simp add: issues_def flagged_def)

lemma identify_low_quality_tests_filter:
  "identify_low_quality_tests tests = map diagnostic (filter flagged tests)"
  by (induction tests) (simp_all add: issues_empty_iff diagnostic_def)

text \<open>
  Claim C6. The entries of \<open>low_quality_tests\<close> are the diagnostics of exactly the flagged
  tests, in their order: a test is flagged when it has zero assertions, or a complexity
  above 5, or no docstring, or assertions and no mocks. Each reason is in the diagnostic
  exactly when its condition holds, and the diagnostic is one string, the test's name
  followed by its reasons joined by commas. So a test with no assertions is flagged with
  \<open>no assertions\<close>, a test with 5 assertions and no mocks is flagged with \<open>no mocking\<close>, and
  a test with 5 assertions, 1 mock, complexity 2 and the docstring x is not flagged.
\<close>

theorem low_quality_tests_rule:
  "identify_low_quality_tests tests = map diagnostic (filter flagged tests) \<and>
   (''no assertions'' \<in> set (issues test)) = (assertions test = 0) \<and>
   (''high complexity'' \<in> set (issues test)) = (5 < complexity test) \<and>
   (''no documentation'' \<in> set (issues test)) = (\<not> truthy (docstring test)) \<and>
   (''no mocking'' \<in> set (issues test)) = (0 < assertions test \<and> mocks test = 0) \<and>
   (assertions test = 0 \<longrightarrow> flagged test \<and> ''no assertions'' \<in> set (issues test)) \<and>
   (assertions test = 5 \<and> mocks test = 0 \<longrightarrow>
      flagged test \<and> ''no mocking'' \<in> set (issues test)) \<and>
   (assertions test = 5 \<and> mocks test = 1 \<and> complexity test = 2 \<and> docstring test = Some ''x''
      \<longrightarrow> \<not> flagged test \<and> identify_low_quality_tests [test] = [])"
proof -
  have a: "(''no assertions'' \<in> set (issues test)) = (assertions test = 0)"
    by (simp add: issues_def)
  have b: "(''high complexity'' \<in> set (issues test)) = (5 < complexity test)"
    by (simp add: issues_def)
  have c: "(''no documentation'' \<in> set (issues test)) = (\<not> truthy (docstring test))"
    by (simp add: issues_def)
  have d: "(''no mocking'' \<in> set (issues test)) = (0 < assertions test \<and> mocks test = 0)"
    by (auto simp add: issues_def)
  have e: "assertions test = 5 \<and> mocks test = 1 \<and> complexity test = 2 \<and>
      docstring test = Some ''x''
      \<longrightarrow> \<not> flagged test \<and> identify_low_quality_tests [test] = []"
    by (simp add: flagged_def issues_def)
  have f: "assertions test = 0 \<longrightarrow> flagged test" by (simp add: flagged_def)
  have g: "assertions test = 5 \<and> mocks test = 0 \<longrightarrow> flagged test" by (simp add: flagged_def)
  show ?thesis using a b c d e f g identify_low_quality_tests_filter [of tests] by simp
qed

text \<open>
  The three tests of the claim: the first has no assertions and no docstring, the second
  has 5 assertions and no mocks, the third is not flagged.
\<close>

theorem low_quality_tests_rule_witness:
  "identify_low_quality_tests [bare_test, unmocked_test, plain_test ''test_fine'' {||} None] =
     [''test_bare (no assertions, no documentation)'', ''test_unmocked (no mocking)'']"
  using low_quality_tests_rule
      [of "[bare_test, unmocked_test, plain_test ''test_fine'' {||} None]" bare_test]
    low_quality_tests_rule [of "[]" unmocked_test]
    low_quality_tests_rule [of "[]" "plain_test ''test_fine'' {||} None"]
  by (simp add: bare_test_def unmocked_test_def plain_test_def diagnostic_def issues_def
      flagged_def)

section \<open>Parsing a judgment\<close>

lemma parse_lines_eq:
  "parse_lines pf lines scores fb =
     (store_all (parsed_scores pf lines) scores, fb @ map strip (filter is_feedback_line lines))"
proof (induction lines arbitrary: scores fb)
  case Nil
  then show ?case by (simp add: store_all_def parsed_scores_def map_filter_simps)
next
  case (Cons line lines)
  show ?case
  proof (cases "mentions_criterion line")
    case True
    then show ?thesis
      by (cases "read_score pf line")
        (auto simp add: Cons.IH store_all_def parsed_scores_def map_filter_simps
          is_feedback_line_def)
  next
    case False
    then show ?thesis
      by (simp add: Cons.IH store_all_def parsed_scores_def map_filter_simps
          is_feedback_line_def)
  qed
qed

lemma store_all_empty: "(store_all items scores = []) = (items = [] \<and> scores = [])"
proof (induction items arbitrary: scores)
  case Nil
  then show ?case by (simp add: store_all_def)
next
  case (Cons item items)
  have "dict_set (fst item) (snd item) scores \<noteq> []"
    by (cases scores) (auto split: if_splits)
  with Cons.IH [of "dict_set (fst item) (snd item) scores"] show ?case
    by (simp add: store_all_def)
qed

lemma parsed_scores_empty:
  "(parsed_scores pf lines = []) = (\<not> list_ex (is_score_line pf) lines)"
  by (induction lines)
    (auto simp add: parsed_scores_def map_filter_simps is_score_line_def split: option.splits)

lemma score_line_shape:
  "is_score_line pf line =
     (mentions_criterion line \<and>
      (\<exists>p0 p1 ps tok toks score. split_on CHR '':'' line = p0 # p1 # ps \<and>
         split_ws (strip p1) = tok # toks \<and> pf tok = Some score))"
  by (auto simp add: is_score_line_def read_score_def split: list.splits option.splits)

text \<open>
  Claim C8, as amended. A line is a score line exactly when it holds one of the six
  criterion keywords and the text between its first and second colon starts, after
  trimming, with a token that \<open>float\<close> accepts. The feedback is the list of the trimmed
  lines that hold no criterion keyword, are not blank and do not start with \<open>#\<close>: a line
  that holds a keyword is never feedback, whether a score is read from it or not. The
  overall score is the mean of the criterion scores returned, where a label read on several
  lines keeps its last score, or 5 when no line is a score line.
\<close>

theorem parse_judgment_response_lines:
  "feedback (parse_judgment_response pf response) =
     map strip (filter is_feedback_line (split_on newline response)) \<and>
   criterion_scores (parse_judgment_response pf response) =
     Some (store_all (parsed_scores pf (split_on newline response)) []) \<and>
   overall_score (parse_judgment_response pf response) =
     (if list_ex (is_score_line pf) (split_on newline response)
      then sum_list (map snd (store_all (parsed_scores pf (split_on newline response)) [])) /
           of_nat (length (store_all (parsed_scores pf (split_on newline response)) []))
      else 5) \<and>
   is_score_line pf line =
     (mentions_criterion line \<and>
      (\<exists>p0 p1 ps tok toks score. split_on CHR '':'' line = p0 # p1 # ps \<and>
         split_ws (strip p1) = tok # toks \<and> pf tok = Some score))"
proof -
  have 1: "feedback (parse_judgment_response pf response) =
     map strip (filter is_feedback_line (split_on newline response))"
    by (simp add: parse_judgment_response_def parse_lines_eq)
  have 2: "criterion_scores (parse_judgment_response pf response) =
     Some (store_all (parsed_scores pf (split_on newline response)) [])"
    by (simp add: parse_judgment_response_def parse_lines_eq)
  have 3: "overall_score (parse_judgment_response pf response) =
     (if list_ex (is_score_line pf) (split_on newline response)
      then sum_list (map snd (store_all (parsed_scores pf (split_on newline response)) [])) /
           of_nat (length (store_all (parsed_scores pf (split_on newline response)) []))
      else 5)"
    by (simp add: parse_judgment_response_def parse_lines_eq store_all_empty
        parsed_scores_empty)
  show ?thesis using 1 2 3 score_line_shape [of pf line] by blast
qed

text \<open>
  A response of four lines: two score lines with the label Coverage, a feedback line, and a
  line with a keyword and no number, which is dropped.
\<close>

theorem parse_judgment_response_lines_witness:
  "feedback (parse_judgment_response float_of_digits example_response) = [''Good names''] \<and>
   criterion_scores (parse_judgment_response float_of_digits example_response) =
     Some [(''Coverage'', 6)] \<and>
   overall_score (parse_judgment_response float_of_digits example_response) = 6"
proof -
  have f: "map strip (filter is_feedback_line (split_on newline example_response)) =
      [''Good names'']"
    by code_simp
  have s: "store_all (parsed_scores float_of_digits (split_on newline example_response)) [] =
      [(''Coverage'', 6)]"
    by code_simp
  have e: "list_ex (is_score_line float_of_digits) (split_on newline example_response)"
    by code_simp
  show ?thesis
    using parse_judgment_response_lines [of float_of_digits example_response "''Coverage: 8''"]
    by (simp add: f s e)
qed

text \<open>
  Claim C8 as stated fails: the line below holds a criterion keyword and no number after a
  colon, it is neither blank nor a comment, and it is not in the feedback.
\<close>

theorem parse_judgment_response_counterexample:
  "mentions_criterion ''coverage looks fine'' \<and>
   read_score float_of_digits ''coverage looks fine'' = None \<and>
   strip ''coverage looks fine'' \<noteq> [] \<and>
   \<not> startswith ''#'' ''coverage looks fine'' \<and>
   feedback (parse_judgment_response float_of_digits ''coverage looks fine'') = []"
  by code_simp

section \<open>The acceptance threshold\<close>

lemma files_invoke: "files (snd (invoke llm p w)) = files w"
  by (simp add: invoke_def split: prod.splits)

lemma files_judge_test: "files (snd (judge_test llm pf test unit w)) = files w"
proof -
  let ?p = "JudgmentPrompt (test_name test) (source_code test) (unit_name unit)
      (unit_type unit) (or_na (signature unit)) (or_na (unit_docstring unit))"
  obtain r w' where i: "invoke llm ?p w = (r, w')" by force
  have "files w' = files w" using files_invoke [of llm ?p w] i by simp
  then show ?thesis using i by (cases r) (simp_all add: judge_test_def print_def)
qed

text \<open>
  Claim C3. In the improvement loop a judged candidate is accepted, that is saved to its
  file, appended to the working test set and to \<open>generated_tests\<close>, with the improvement flag
  raised, if and only if the overall score of its judgment is at least 7; below 7 it is
  rejected and the working set, \<open>generated_tests\<close>, the files and the flag stay as they were.
  A score of exactly 7 is accepted.
\<close>

theorem acceptance_threshold:
  assumes "judge_test llm pf test unit w = (j, w1)"
    and "consider_candidate llm pf unit n test (imp, fw, w) = (imp', fw', w')"
  shows "((test_cases fw' = test_cases fw @ [test] \<and>
           generated_tests fw' = generated_tests fw @ [test] \<and>
           files w' = files w @
             [(path_name (test_file_path test),
               file_header @ (case source_code test of None \<Rightarrow> ''None'' | Some s \<Rightarrow> s)
                 @ [newline])] \<and>
           imp') = (7 \<le> overall_score j)) \<and>
         ((test_cases fw' = test_cases fw \<and> generated_tests fw' = generated_tests fw \<and>
           files w' = files w \<and> imp' = imp) = (overall_score j < 7))"
proof -
  have f: "files w1 = files w" using files_judge_test [of llm pf test unit w] assms(1) by simp
  show ?thesis
  proof (cases "7 \<le> overall_score j")
    case True
    with assms f show ?thesis
      by (auto simp add: consider_candidate_def accept_test_def save_test_case_def print_def)
  next
    case False
    with assms f show ?thesis
      by (auto simp add: consider_candidate_def print_def)
  qed
qed

text \<open>
  A candidate judged exactly 7 is accepted into an empty working set, and the same
  candidate judged 6 is rejected.
\<close>

theorem acceptance_threshold_witness:
  "overall_score (fst (judge_test borderline_llm float_of_digits candidate_a unit_a world0))
     = 7 \<and>
   test_cases (fst (snd (consider_candidate borderline_llm float_of_digits unit_a ''a''
      candidate_a (False, framework0, world0)))) = [candidate_a] \<and>
   overall_score (fst (judge_test strict_llm float_of_digits candidate_a unit_a world0))
     = 6 \<and>
   test_cases (fst (snd (consider_candidate strict_llm float_of_digits unit_a ''a''
      candidate_a (False, framework0, world0)))) = []"
proof -
  let ?jb = "judge_test borderline_llm float_of_digits candidate_a unit_a world0"
  let ?cb = "consider_candidate borderline_llm float_of_digits unit_a ''a'' candidate_a
      (False, framework0, world0)"
  let ?js = "judge_test strict_llm float_of_digits candidate_a unit_a world0"
  let ?cs = "consider_candidate strict_llm float_of_digits unit_a ''a'' candidate_a
      (False, framework0, world0)"
  have a: "overall_score (fst ?jb) = 7" by code_simp
  have b: "overall_score (fst ?js) = 6" by code_simp
  have c: "test_cases framework0 = []" by (simp add: framework0_def)
  show ?thesis
    using a b c
      acceptance_threshold [where llm = borderline_llm and pf = float_of_digits
        and test = candidate_a and unit = unit_a and w = world0 and n = "''a''"
        and imp = False and fw = framework0 and j = "fst ?jb" and ?w1.0 = "snd ?jb"
        and imp' = "fst ?cb" and fw' = "fst (snd ?cb)" and w' = "snd (snd ?cb)"]
      acceptance_threshold [where llm = strict_llm and pf = float_of_digits
        and test = candidate_a and unit = unit_a and w = world0 and n = "''a''"
        and imp = False and fw = framework0 and j = "fst ?js" and ?w1.0 = "snd ?js"
        and imp' = "fst ?cs" and fw' = "fst (snd ?cs)" and w' = "snd (snd ?cs)"]
    by simp
qed

section \<open>Oracle failures\<close>

text \<open>
  Claim C7. When the oracle raises on the generation prompt, \<open>generate_tests\<close> returns the
  empty list; when it raises on the judgment prompt, \<open>judge_test\<close> returns the judgment with
  overall score 5 and the feedback \<open>Error in evaluation\<close>, and the candidate is rejected
  with the framework unchanged. In both cases nothing propagates: after a failed generation
  for one target the loop goes on with the remaining targets.
\<close>

theorem oracle_failure_contained:
  "(llm (llm_state w) (create_test_generation_prompt unit existing) = (None, s) \<longrightarrow>
      generate_tests llm unit existing w =
        ([], print (ErrorGenerating (unit_name unit)) (w\<lparr>llm_state := s\<rparr>))) \<and>
   (llm (llm_state w)
        (JudgmentPrompt (test_name test) (source_code test) (unit_name unit) (unit_type unit)
           (or_na (signature unit)) (or_na (unit_docstring unit))) = (None, s) \<longrightarrow>
      judge_test llm pf test unit w =
        (\<lparr>overall_score = 5, criterion_scores = None, feedback = [''Error in evaluation'']\<rparr>,
         print (ErrorJudging (test_name test)) (w\<lparr>llm_state := s\<rparr>)) \<and>
      consider_candidate llm pf unit n test (imp, fw, w) =
        (imp, fw,
         print (RejectedLowQuality n)
           (print (ErrorJudging (test_name test)) (w\<lparr>llm_state := s\<rparr>)))) \<and>
   (find_code_unit fw n = Some unit \<and>
    llm (llm_state w) (create_test_generation_prompt unit (test_cases fw)) = (None, s) \<longrightarrow>
      fold (improve_unit llm pf) (n # ns) (imp, fw, w) =
        fold (improve_unit llm pf) ns
          (imp, fw, print (ErrorGenerating (unit_name unit)) (w\<lparr>llm_state := s\<rparr>)))"
  by (simp add: generate_tests_def judge_test_def consider_candidate_def improve_unit_def
      invoke_def)

text \<open>
  With an oracle whose every call raises, generation returns no test, judgment returns the
  neutral judgment, and two targets in a row are both tried.
\<close>

theorem oracle_failure_contained_witness:
  "generate_tests failing_llm unit_a [] world0 =
     ([], \<lparr>llm_state = 1, console = [ErrorGenerating ''a''], files = []\<rparr>) \<and>
   fst (judge_test failing_llm float_of_digits candidate_a unit_a world0) =
     \<lparr>overall_score = 5, criterion_scores = None, feedback = [''Error in evaluation'']\<rparr> \<and>
   fold (improve_unit failing_llm float_of_digits) [''a'', ''a''] (False, framework0, world0) =
     (False, framework0,
      \<lparr>llm_state = 2, console = [ErrorGenerating ''a'', ErrorGenerating ''a''], files = []\<rparr>)"
proof -
  have u: "find_code_unit framework0 ''a'' = Some unit_a"
    by (simp add: find_code_unit_def framework0_def unit_a_def)
  have t: "test_cases framework0 = []" by (simp add: framework0_def)
  have n: "unit_name unit_a = ''a''" by (simp add: unit_a_def)
  have l: "llm_state world0 = 0" by (simp add: world0_def)
  have k: "\<And>k p. failing_llm k p = (None, Suc k)" by (simp add: failing_llm_def)
  show ?thesis
    using oracle_failure_contained [where llm = failing_llm and w = world0 and unit = unit_a
        and existing = "[]" and s = "Suc 0" and test = candidate_a and pf = float_of_digits
        and n = "''a''" and imp = False and fw = framework0 and ns = "[''a'']"]
      oracle_failure_contained [where llm = failing_llm
        and w = "\<lparr>llm_state = 1, console = [ErrorGenerating ''a''], files = []\<rparr>"
        and unit = unit_a and existing = "[]" and s = "Suc (Suc 0)" and test = candidate_a
        and pf = float_of_digits and n = "''a''" and imp = False and fw = framework0
        and ns = "[]"]
    by (simp add: u t n l k print_def world0_def numeral_2_eq_2)
qed

section \<open>Adding a test that is already there\<close>

text \<open>
  Claim C9, as amended. Accepting a test whose identity triple (name, file path, start
  line) equals that of a test already in the working test set leaves the set of identity
  triples of the working set unchanged, but the working set is a list and grows by one
  entry, so the \<open>total_tests\<close> counted at the next assessment is one more than before.
\<close>

theorem duplicate_test_is_appended:
  assumes "list_ex (test_eq test) (test_cases fw)"
  shows "test_key ` set (test_cases (fst (accept_test n test (fw, w)))) =
           test_key ` set (test_cases fw) \<and>
         length (test_cases (fst (accept_test n test (fw, w)))) = length (test_cases fw) + 1 \<and>
         total_tests (fst (assess_quality llm pf U
            (test_cases (fst (accept_test n test (fw, w)))) w2)) =
           total_tests (fst (assess_quality llm pf U (test_cases fw) w1)) + 1"
proof -
  from assms obtain x where "x \<in> set (test_cases fw)" "test_key x = test_key test"
    by (auto simp add: list_ex_iff test_eq_def)
  then have "test_key test \<in> test_key ` set (test_cases fw)" by (metis imageI)
  then show ?thesis
    by (auto simp add: accept_test_def assess_quality_def Let_def split: prod.splits)
qed

text \<open>The test generated for unit \<open>a\<close>, accepted a second time.\<close>

theorem duplicate_test_is_appended_witness:
  "list_ex (test_eq candidate_a) (test_cases framework1) \<and>
   length (test_cases (fst (accept_test ''a'' candidate_a (framework1, world0)))) = 2"
proof -
  have a: "list_ex (test_eq candidate_a) (test_cases framework1)" by code_simp
  have b: "length (test_cases framework1) = 1" by (simp add: framework1_def)
  show ?thesis
    using a b
      duplicate_test_is_appended [OF a, where n = "''a''" and w = world0 and llm = good_llm
        and pf = float_of_text and U = "[]" and ?w1.0 = world0 and ?w2.0 = world0]
    by simp
qed

text \<open>
  Claim C9 as stated fails: the working set holds the test generated for unit \<open>a\<close>, the
  same test is generated again and judged 8, and the next assessment counts 2 tests where
  it counted 1.
\<close>

theorem duplicate_test_counterexample:
  "list_ex (test_eq candidate_a) (test_cases framework1) \<and>
   7 \<le> overall_score (fst (judge_test good_llm float_of_digits candidate_a unit_a world0)) \<and>
   total_tests (fst (assess_quality good_llm float_of_text [unit_a]
     (test_cases framework1) world0)) = 1 \<and>
   total_tests (fst (assess_quality good_llm float_of_text [unit_a]
     (test_cases (fst (snd (consider_candidate good_llm float_of_digits unit_a ''a''
        candidate_a (False, framework1, world0))))) world0)) = 2"
  by code_simp

section \<open>Termination of the improvement loop\<close>

lemma grows_refl: "grows s s"
  by (simp add: grows_def)

lemma grows_trans:
  assumes "grows s s'" and "grows s' s''"
  shows "grows s s''"
proof -
  from assms(1) obtain xs where
    xs: "generated_tests (fst (snd s')) = generated_tests (fst (snd s)) @ xs"
      "fst s' = (fst s \<or> xs \<noteq> [])"
    and i1: "iterations (console (snd (snd s'))) = iterations (console (snd (snd s)))"
    by (auto simp add: grows_def)
  from assms(2) obtain ys where
    ys: "generated_tests (fst (snd s'')) = generated_tests (fst (snd s')) @ ys"
      "fst s'' = (fst s' \<or> ys \<noteq> [])"
    and i2: "iterations (console (snd (snd s''))) = iterations (console (snd (snd s')))"
    by (auto simp add: grows_def)
  have "generated_tests (fst (snd s'')) = generated_tests (fst (snd s)) @ (xs @ ys)"
    using xs ys by simp
  moreover have "fst s'' = (fst s \<or> xs @ ys \<noteq> [])" using xs ys by auto
  ultimately show ?thesis using i1 i2 unfolding grows_def by metis
qed

lemma fold_grows:
  assumes "\<And>x s. grows s (f x s)"
  shows "grows s (fold f xs s)"
proof (induction xs arbitrary: s)
  case Nil
  then show ?case by (simp add: grows_refl)
next
  case (Cons x xs)
  have "grows s (f x s)" by (rule assms)
  moreover have "grows (f x s) (fold f xs (f x s))" by (rule Cons.IH)
  ultimately have "grows s (fold f xs (f x s))" by (rule grows_trans)
  then show ?case by simp
qed

lemma console_invoke: "console (snd (invoke llm p w)) = console w"
  by (simp add: invoke_def split: prod.splits)

lemma iterations_generate_tests:
  "iterations (console (snd (generate_tests llm unit existing w))) = iterations (console w)"
proof -
  let ?p = "create_test_generation_prompt unit existing"
  obtain r w' where i: "invoke llm ?p w = (r, w')" by force
  have "console w' = console w" using console_invoke [of llm ?p w] i by simp
  then show ?thesis using i
    by (cases r) (simp_all add: generate_tests_def print_def iterations_def Let_def)
qed

lemma iterations_judge_test:
  "iterations (console (snd (judge_test llm pf test unit w))) = iterations (console w)"
proof -
  let ?p = "JudgmentPrompt (test_name test) (source_code test) (unit_name unit)
      (unit_type unit) (or_na (signature unit)) (or_na (unit_docstring unit))"
  obtain r w' where i: "invoke llm ?p w = (r, w')" by force
  have "console w' = console w" using console_invoke [of llm ?p w] i by simp
  then show ?thesis using i
    by (cases r) (simp_all add: judge_test_def print_def iterations_def)
qed

lemma grows_consider_candidate: "grows s (consider_candidate llm pf unit n test s)"
proof -
  obtain imp fw w where s: "s = (imp, fw, w)" by (cases s) auto
  obtain j w' where j: "judge_test llm pf test unit w = (j, w')" by force
  have c: "iterations (console w') = iterations (console w)"
    using iterations_judge_test [of llm pf test unit w] j by simp
  show ?thesis
  proof (cases "7 \<le> overall_score j")
    case True
    then show ?thesis using s j c
      by (simp add: grows_def consider_candidate_def accept_test_def save_test_case_def
          print_def iterations_def)
  next
    case False
    then show ?thesis using s j c
      by (simp add: grows_def consider_candidate_def print_def iterations_def)
  qed
qed

lemma grows_improve_unit: "grows s (improve_unit llm pf n s)"
proof -
  obtain imp fw w where s: "s = (imp, fw, w)" by (cases s) auto
  show ?thesis
  proof (cases "find_code_unit fw n")
    case None
    then show ?thesis using s by (simp add: improve_unit_def grows_refl)
  next
    case (Some unit)
    obtain ts w' where g: "generate_tests llm unit (test_cases fw) w = (ts, w')" by force
    have "iterations (console w') = iterations (console w)"
      using iterations_generate_tests [of llm unit "test_cases fw" w] g by simp
    then have "grows s (imp, fw, w')" using s by (simp add: grows_def)
    moreover have "grows (imp, fw, w') (fold (consider_candidate llm pf unit n) ts (imp, fw, w'))"
      by (rule fold_grows) (rule grows_consider_candidate)
    ultimately show ?thesis using s Some g grows_trans by (simp add: improve_unit_def) blast
  qed
qed

lemma run_iteration_effect:
  assumes "run_iteration llm pf enum m i (fw, w) = (c, fw1, w1)"
  shows "iterations (console w1) = iterations (console w) + 1 \<and>
         c = (target_units enum fw \<noteq> [] \<and> generated_tests fw1 \<noteq> generated_tests fw)"
proof (cases "target_units enum fw = []")
  case True
  with assms show ?thesis
    by (auto simp add: run_iteration_def print_def iterations_def Let_def)
next
  case False
  let ?s0 = "(False, fw, print (Targeting (length (target_units enum fw)))
      (print (IterationMsg (i + 1) m) w))"
  obtain imp fw' w' where
    f: "fold (improve_unit llm pf) (take 5 (target_units enum fw)) ?s0 = (imp, fw', w')"
    by (metis prod_cases3)
  have "grows ?s0 (fold (improve_unit llm pf) (take 5 (target_units enum fw)) ?s0)"
    by (rule fold_grows) (rule grows_improve_unit)
  with f obtain xs where
    it: "iterations (console w') = iterations (console (snd (snd ?s0)))"
    and xs: "generated_tests fw' = generated_tests fw @ xs" "imp = (xs \<noteq> [])"
    by (auto simp add: grows_def)
  have it0: "iterations (console (snd (snd ?s0))) = iterations (console w) + 1"
    by (simp add: print_def iterations_def)
  from assms False f have r: "fw1 = fw'" "c = imp"
    "iterations (console w1) = iterations (console w')"
    by (auto simp add: run_iteration_def Let_def print_def iterations_def split: if_splits)
  show ?thesis using r it it0 xs False by simp
qed

lemma improve_loop_iterations:
  "iterations (console (snd (improve_loop llm pf enum m is (fw, w)))) \<le>
     iterations (console w) + length is \<and>
   (every_iteration_improves llm pf enum m is (fw, w) \<longrightarrow>
      iterations (console (snd (improve_loop llm pf enum m is (fw, w)))) =
        iterations (console w) + length is)"
proof (induction "is" arbitrary: fw w)
  case Nil
  then show ?case by simp
next
  case (Cons i rest)
  obtain c fw1 w1 where r: "run_iteration llm pf enum m i (fw, w) = (c, fw1, w1)"
    by (metis prod_cases3)
  have one: "iterations (console w1) = iterations (console w) + 1"
    using run_iteration_effect [OF r] by simp
  show ?case
  proof (cases c)
    case True
    with r one Cons.IH [of fw1 w1] show ?thesis by simp
  next
    case False
    with r one show ?thesis by simp
  qed
qed

text \<open>
  Claim C4. The improvement loop is defined by recursion over \<open>range(max_iterations)\<close>, so
  it returns for every input, and it enters at most \<open>max_iterations\<close> iterations. An
  iteration whose target list is empty ends the loop at once and changes nothing but the
  console. An iteration goes on to the next one exactly when its target list is not empty
  and it accepted at least one candidate; otherwise the loop ends with the state that
  iteration left. If no iteration of the run ends the loop, the loop enters exactly
  \<open>max_iterations\<close> iterations.
\<close>

theorem improvement_loop_bounded:
  "iterations (console (snd (improve_tests_iteratively llm pf enum m (fw, w)))) \<le>
     iterations (console w) + nat m \<and>
   (target_units enum fw = [] \<longrightarrow>
      run_iteration llm pf enum m i (fw, w) =
        (False, fw, print NoUnitsNeedImprovement (print (IterationMsg (i + 1) m) w))) \<and>
   (run_iteration llm pf enum m i (fw, w) = (c, fw1, w1) \<longrightarrow>
      c = (target_units enum fw \<noteq> [] \<and> generated_tests fw1 \<noteq> generated_tests fw)) \<and>
   (run_iteration llm pf enum m i (fw, w) = (False, fw1, w1) \<longrightarrow>
      improve_loop llm pf enum m (i # rest) (fw, w) = (fw1, w1)) \<and>
   (every_iteration_improves llm pf enum m [0..m - 1] (fw, w) \<longrightarrow>
      iterations (console (snd (improve_tests_iteratively llm pf enum m (fw, w)))) =
        iterations (console w) + nat m)"
proof -
  have a: "iterations (console (snd (improve_tests_iteratively llm pf enum m (fw, w)))) \<le>
      iterations (console w) + nat m"
    using improve_loop_iterations [of llm pf enum m "[0..m - 1]" fw w]
    by (simp add: improve_tests_iteratively_def)
  have b: "target_units enum fw = [] \<longrightarrow>
      run_iteration llm pf enum m i (fw, w) =
        (False, fw, print NoUnitsNeedImprovement (print (IterationMsg (i + 1) m) w))"
    by (simp add: run_iteration_def)
  have c: "run_iteration llm pf enum m i (fw, w) = (c, fw1, w1) \<longrightarrow>
      c = (target_units enum fw \<noteq> [] \<and> generated_tests fw1 \<noteq> generated_tests fw)"
    using run_iteration_effect by blast
  have d: "run_iteration llm pf enum m i (fw, w) = (False, fw1, w1) \<longrightarrow>
      improve_loop llm pf enum m (i # rest) (fw, w) = (fw1, w1)"
    by simp
  have e: "every_iteration_improves llm pf enum m [0..m - 1] (fw, w) \<longrightarrow>
      iterations (console (snd (improve_tests_iteratively llm pf enum m (fw, w)))) =
        iterations (console w) + nat m"
    using improve_loop_iterations [of llm pf enum m "[0..m - 1]" fw w]
    by (simp add: improve_tests_iteratively_def)
  show ?thesis using a b c d e by blast
qed

text \<open>
  One unit without tests. An oracle whose candidates are always accepted keeps the unit a
  target (its test has one assertion and no mock), and the loop runs its 2 iterations; an
  oracle whose candidates are always rejected ends the loop after the first of 3
  iterations; without units the loop ends in its first iteration.
\<close>

theorem improvement_loop_bounded_witness:
  "every_iteration_improves good_llm float_of_digits sorted_list_of_fset 2 [0..2 - 1]
     (framework0, world0) \<and>
   iterations (console (snd (improve_tests_iteratively good_llm float_of_digits
     sorted_list_of_fset 2 (framework0, world0)))) = 2 \<and>
   target_units sorted_list_of_fset empty_framework = [] \<and>
   improve_loop good_llm float_of_digits sorted_list_of_fset 3 [0, 1, 2]
     (empty_framework, world0) =
     (empty_framework, world0\<lparr>console := [IterationMsg 1 3, NoUnitsNeedImprovement]\<rparr>) \<and>
   run_iteration strict_llm float_of_digits sorted_list_of_fset 3 0 (framework0, world0) =
     (False, framework0,
      \<lparr>llm_state = 2,
       console = [IterationMsg 1 3, Targeting 1, RejectedLowQuality ''a'', NoImprovementsMade],
       files = []\<rparr>) \<and>
   improve_loop strict_llm float_of_digits sorted_list_of_fset 3 [0, 1, 2]
     (framework0, world0) =
     (framework0,
      \<lparr>llm_state = 2,
       console = [IterationMsg 1 3, Targeting 1, RejectedLowQuality ''a'', NoImprovementsMade],
       files = []\<rparr>)"
proof -
  let ?w = "\<lparr>llm_state = 2,
       console = [IterationMsg 1 3, Targeting 1, RejectedLowQuality ''a'', NoImprovementsMade],
       files = []\<rparr> :: nat world"
  have a: "every_iteration_improves good_llm float_of_digits sorted_list_of_fset 2 [0..2 - 1]
     (framework0, world0)"
    by code_simp
  have b: "run_iteration strict_llm float_of_digits sorted_list_of_fset 3 0
      (framework0, world0) = (False, framework0, ?w)"
    by code_simp
  have c: "target_units sorted_list_of_fset empty_framework = []" by code_simp
  have e: "iterations (console world0) = 0" by (simp add: world0_def iterations_def)
  have p: "print NoUnitsNeedImprovement (print (IterationMsg (0 + 1) 3) world0) =
      world0\<lparr>console := [IterationMsg 1 3, NoUnitsNeedImprovement]\<rparr>"
    by (simp add: print_def world0_def)
  show ?thesis
    using a b c e p
      improvement_loop_bounded [where llm = good_llm and pf = float_of_digits
        and enum = sorted_list_of_fset and m = 2 and fw = framework0 and w = world0
        and i = 0 and c = False and ?fw1.0 = framework0 and ?w1.0 = world0 and rest = "[]"]
      improvement_loop_bounded [where llm = good_llm and pf = float_of_digits
        and enum = sorted_list_of_fset and m = 3 and fw = empty_framework and w = world0
        and i = 0 and c = False and ?fw1.0 = empty_framework
        and ?w1.0 = "world0\<lparr>console := [IterationMsg 1 3, NoUnitsNeedImprovement]\<rparr>"
        and rest = "[1, 2]"]
      improvement_loop_bounded [where llm = strict_llm and pf = float_of_digits
        and enum = sorted_list_of_fset and m = 3 and fw = framework0 and w = world0
        and i = 0 and c = False and ?fw1.0 = framework0 and ?w1.0 = ?w and rest = "[1, 2]"]
    by simp
qed

section \<open>Extracting the code of a response\<close>

lemma find_at_none: "(find_at sub s i = - 1) = (\<not> contains sub s)"
  by (induction s arbitrary: i) auto

lemma find_at_some:
  "contains sub s \<Longrightarrow>
     \<exists>k. find_at sub s i = int (i + k) \<and> startswith sub (drop k s)"
proof (induction s arbitrary: i)
  case Nil
  then show ?case by simp
next
  case (Cons c cs)
  show ?case
  proof (cases "startswith sub (c # cs)")
    case True
    then have "find_at sub (c # cs) i = int (i + 0) \<and> startswith sub (drop 0 (c # cs))"
      by simp
    then show ?thesis by blast
  next
    case False
    with Cons.prems have "contains sub cs" by simp
    from Cons.IH [OF this, of "Suc i"] obtain k where
      k: "find_at sub cs (Suc i) = int (Suc i + k)" "startswith sub (drop k cs)" by blast
    from False k have "find_at sub (c # cs) i = int (i + Suc k) \<and>
        startswith sub (drop (Suc k) (c # cs))" by simp
    then show ?thesis by blast
  qed
qed

lemma startswith_append: "startswith p s \<Longrightarrow> \<exists>post. s = p @ post"
  by (induction p s rule: startswith.induct) auto

lemma str_find_none:
  "\<not> contains sub (drop start s) \<Longrightarrow> str_find s sub start = - 1"
  by (simp add: str_find_def find_at_none)

lemma slice_to_last:
  assumes "0 \<le> a"
  shows "slice s a (- 1) = butlast (drop (nat a) s)"
proof -
  have t: "take (nat (max 0 (- 1 + int (length s)))) s = butlast s"
    by (cases "s = []") (simp_all add: butlast_conv_take nat_diff_distrib')
  have d: "drop (nat (min a (int (length s)))) (butlast s) = drop (nat a) (butlast s)"
    by (cases "a \<le> int (length s)") (simp_all add: min_def)
  show ?thesis using assms t d by (simp add: slice_def Let_def butlast_drop)
qed

lemma dropWhile_keeps:
  assumes "m \<noteq> []" and "\<not> P (hd m)"
  shows "dropWhile P (pre @ m @ post) = dropWhile P pre @ m @ post"
proof -
  have "dropWhile P (m @ post) = m @ post" using assms by (cases m) simp_all
  then show ?thesis by (simp add: dropWhile_append)
qed

lemma length_strip_butlast:
  "length (strip (butlast post)) \<le> length (dropWhile is_space (rev post))"
proof -
  let ?P = is_space
  have 1: "length (dropWhile ?P (rev (dropWhile ?P xs))) \<le> length (dropWhile ?P (rev xs))"
    for xs :: string
  proof -
    have "rev xs = rev (dropWhile ?P xs) @ rev (takeWhile ?P xs)"
      by (metis rev_append takeWhile_dropWhile_id)
    then have d: "dropWhile ?P (rev xs) =
        dropWhile ?P (rev (dropWhile ?P xs) @ rev (takeWhile ?P xs))" by simp
    show ?thesis
    proof (cases "\<forall>x\<in>set (rev (dropWhile ?P xs)). ?P x")
      case True
      then have "dropWhile ?P (rev (dropWhile ?P xs)) = []"
        by (simp only: dropWhile_eq_Nil_conv)
      then have "length (dropWhile ?P (rev (dropWhile ?P xs))) = 0"
        by (simp only: list.size)
      then show ?thesis by linarith
    next
      case False
      then have "dropWhile ?P (rev xs) =
          dropWhile ?P (rev (dropWhile ?P xs)) @ rev (takeWhile ?P xs)"
        using d by (simp only: dropWhile_append if_False)
      then show ?thesis by simp
    qed
  qed
  have 2: "length (dropWhile ?P (rev (butlast xs))) \<le> length (dropWhile ?P (rev xs))"
    for xs :: string
  proof (cases xs rule: rev_cases)
    case Nil
    then show ?thesis by simp
  next
    case (snoc ys y)
    have "length (dropWhile ?P (rev ys)) \<le> length (rev ys)" by (rule length_dropWhile_le)
    then show ?thesis using snoc by simp
  qed
  have "length (strip (butlast post)) =
      length (dropWhile ?P (rev (dropWhile ?P (butlast post))))"
    by (simp add: strip_def)
  also have "\<dots> \<le> length (dropWhile ?P (rev (butlast post)))" by (rule 1)
  also have "\<dots> \<le> length (dropWhile ?P (rev post))" by (rule 2)
  finally show ?thesis .
qed

lemma length_strip_around:
  assumes "m \<noteq> []" and "\<not> is_space (hd m)" and "\<not> is_space (last m)"
  shows "length m + length (dropWhile is_space (rev post)) \<le> length (strip (pre @ m @ post))"
proof -
  have a: "dropWhile is_space (pre @ m @ post) = dropWhile is_space pre @ m @ post"
    using assms(1,2) by (rule dropWhile_keeps)
  have "rev m \<noteq> []" "\<not> is_space (hd (rev m))" using assms(1,3) by (simp_all add: hd_rev)
  then have b: "dropWhile is_space (rev post @ rev m @ rev (dropWhile is_space pre)) =
      dropWhile is_space (rev post) @ rev m @ rev (dropWhile is_space pre)"
    by (rule dropWhile_keeps)
  show ?thesis by (simp add: strip_def a b)
qed

text \<open>
  Claim C10, as amended. When a response holds an opening code-fence marker and no closing
  fence after it, \<open>_extract_test_code\<close> returns, trimmed of surrounding whitespace, the
  substring that starts just after the opening marker and ends before the last character of
  the response, and this is never the trimmed response of the fallback.
\<close>

theorem extract_test_code_unclosed_fence:
  assumes "opening_marker response = Some marker"
    and "start = nat (str_find response marker 0) + length marker"
    and "\<not> contains ''```'' (drop start response)"
  shows "extract_test_code response = strip (butlast (drop start response)) \<and>
         startswith marker (drop (start - length marker) response) \<and>
         extract_test_code response \<noteq> strip response"
proof -
  from assms(1) have m: "marker = ''```python'' \<or> marker = ''```''"
    and c: "contains marker response"
    by (auto simp add: opening_marker_def split: if_splits)
  from find_at_some [OF c, of 0] obtain k where
    k: "find_at marker response 0 = int k" "startswith marker (drop k response)" by auto
  then have f: "str_find response marker 0 = int k" by (simp add: str_find_def)
  with assms(2) have s: "start = k + length marker" by simp
  have stop: "str_find response ''```'' start = - 1" using assms(3) by (rule str_find_none)
  have e: "extract_test_code response = strip (slice response (int start) (- 1))"
  proof (cases "marker = ''```python''")
    case True
    have c1: "contains ''```python'' response" using c True by simp
    have i: "str_find response ''```python'' 0 + 9 = int start" using f s True by simp
    have n: "nat (int start) = start" by simp
    show ?thesis unfolding extract_test_code_def Let_def
      by (simp only: c1 if_True i n stop)
  next
    case False
    then have m3: "marker = ''```''" using m by simp
    have c0: "\<not> contains ''```python'' response"
      using assms(1) False by (auto simp add: opening_marker_def split: if_splits)
    have c1: "contains ''```'' response" using c m3 by simp
    have i: "str_find response ''```'' 0 + 3 = int start" using f s m3 by simp
    have n: "nat (int start) = start" by simp
    show ?thesis unfolding extract_test_code_def Let_def
      by (simp only: c0 c1 if_True if_False i n stop)
  qed
  then have 1: "extract_test_code response = strip (butlast (drop start response))"
    by (simp add: slice_to_last)
  have 2: "startswith marker (drop (start - length marker) response)" using k s by simp
  from startswith_append [OF k(2)] obtain post where p: "drop k response = marker @ post"
    by blast
  then have r: "response = take k response @ marker @ post"
    by (metis append_take_drop_id)
  have dp: "drop start response = post"
  proof -
    have "drop start response = drop (length marker) (drop k response)"
      using s by (simp add: add.commute)
    then show ?thesis using p by simp
  qed
  have ns: "marker \<noteq> [] \<and> \<not> is_space (hd marker) \<and> \<not> is_space (last marker)"
    using m by (auto simp add: is_space_def)
  then have "length marker + length (dropWhile is_space (rev post)) \<le>
      length (strip (take k response @ marker @ post))"
    using length_strip_around by blast
  then have la: "length marker + length (dropWhile is_space (rev post)) \<le>
      length (strip response)"
    using r by simp
  have lb: "length (strip (butlast post)) \<le> length (dropWhile is_space (rev post))"
    by (rule length_strip_butlast)
  have lm: "1 \<le> length marker" using ns by (cases marker) simp_all
  have "length (strip (butlast post)) < length (strip response)"
    using la lb lm by linarith
  then have "length (extract_test_code response) < length (strip response)"
    using 1 dp by simp
  then have 3: "extract_test_code response \<noteq> strip response" by auto
  show ?thesis using 1 2 3 by simp
qed

text \<open>A fence that is opened and not closed: the code returned is the line after it.\<close>

theorem extract_test_code_unclosed_fence_witness:
  "opening_marker unclosed_response = Some ''```python'' \<and>
   \<not> contains ''```'' (drop 9 unclosed_response) \<and>
   extract_test_code unclosed_response = ''x = 1''"
proof -
  have a: "opening_marker unclosed_response = Some ''```python''" by code_simp
  have b: "nat (str_find unclosed_response ''```python'' 0) + length ''```python'' = 9"
    by code_simp
  have c: "\<not> contains ''```'' (drop 9 unclosed_response)" by code_simp
  have d: "strip (butlast (drop 9 unclosed_response)) = ''x = 1''" by code_simp
  show ?thesis
    using a c d extract_test_code_unclosed_fence [OF a b [symmetric] c] by simp
qed

text \<open>
  Claim C10 as stated fails: for the same response the substring between the marker and the
  last character starts with a line break, and the code returns it without.
\<close>

theorem extract_test_code_counterexample:
  "opening_marker unclosed_response = Some ''```python'' \<and>
   \<not> contains ''```'' (drop 9 unclosed_response) \<and>
   butlast (drop 9 unclosed_response) = newline # ''x = 1'' \<and>
   extract_test_code unclosed_response \<noteq> butlast (drop 9 unclosed_response)"
  by code_simp

end
